theory Spec2Isabelle
  imports Main
begin

section \<open>Python values\<close>

text \<open>
  A Python \<open>str\<close> is modelled by its UTF-8 encoding, the encoding in which the store's
  file is opened: a \<open>string\<close> whose characters are the bytes. A text of ASCII characters
  is the string of these characters, so the literals of the source are the literals here;
  the Arabic-Indic digit three, U+0663, is \<open>[CHR 0xD9, CHR 0xA3]\<close>. A byte string that is
  no UTF-8 encoding stands for no \<open>str\<close>; the functions below are total and treat it as a
  text that is no number and holds no letter.
  The exceptions that the handlers can raise are values of the type \<open>error\<close>.
\<close>

datatype error = ValueError | KeyError | AttributeError

text \<open>
  \<open>characters s\<close> cuts the bytes of \<open>s\<close> into the characters of the text: the first
  byte of a character tells how many bytes it has.
\<close>

definition width :: "char \<Rightarrow> nat" where
  "width c =
     (if of_char c < (0xC0::nat) then 1
      else if of_char c < (0xE0::nat) then 2
      else if of_char c < (0xF0::nat) then 3
      else 4)"

fun characters :: "string \<Rightarrow> string list" where
  "characters [] = []"
| "characters (c # cs) = (c # take (width c - 1) cs) # characters (drop (width c - 1) cs)"

text \<open>
  The code point of one character, \<open>None\<close> for bytes that encode none: a following byte
  outside \<open>0x80-0xBF\<close>, a missing byte, a longer encoding than the code point needs, a
  surrogate, a number beyond U+10FFFF.
\<close>

definition continuation :: "char \<Rightarrow> bool" where
  "continuation c \<longleftrightarrow> (0x80::nat) \<le> of_char c \<and> of_char c < (0xC0::nat)"

definition scalar :: "nat \<Rightarrow> nat \<Rightarrow> nat \<Rightarrow> nat option" where
  "scalar least limit n =
     (if least \<le> n \<and> n < limit \<and> \<not> (0xD800 \<le> n \<and> n < 0xE000) then Some n else None)"

fun code_point :: "string \<Rightarrow> nat option" where
  "code_point [a] = (if of_char a < (0x80::nat) then Some (of_char a) else None)"
| "code_point [a, b] =
     (if (0xC0::nat) \<le> of_char a \<and> of_char a < (0xE0::nat) \<and> continuation b
      then scalar 0x80 0x800 ((of_char a - 0xC0) * 0x40 + (of_char b - 0x80))
      else None)"
| "code_point [a, b, c] =
     (if (0xE0::nat) \<le> of_char a \<and> of_char a < (0xF0::nat) \<and> continuation b \<and> continuation c
      then scalar 0x800 0x10000
             ((of_char a - 0xE0) * 0x1000 + (of_char b - 0x80) * 0x40 + (of_char c - 0x80))
      else None)"
| "code_point [a, b, c, d] =
     (if (0xF0::nat) \<le> of_char a \<and> continuation b \<and> continuation c \<and> continuation d
      then scalar 0x10000 0x110000
             ((of_char a - 0xF0) * 0x40000 + (of_char b - 0x80) * 0x1000
              + (of_char c - 0x80) * 0x40 + (of_char d - 0x80))
      else None)"
| "code_point s = None"

definition code_points :: "string \<Rightarrow> nat list option" where
  "code_points s = those (map code_point (characters s))"

text \<open>
  The decimal digits of Unicode 14.0 (general category \<open>Nd\<close>), as the \<open>unicodedata\<close>
  tables of Python 3.11 have them: 66 runs of ten code points, each run holding the digits
  0 to 9 of one script in this order. \<open>decimal_zeros\<close> lists the first code point of
  every run: U+0030 for the ASCII digits, U+0660 for the Arabic-Indic ones, and so on.
\<close>

definition decimal_zeros :: "nat list" where
  "decimal_zeros =
     [0x30, 0x660, 0x6F0, 0x7C0, 0x966, 0x9E6, 0xA66, 0xAE6,
      0xB66, 0xBE6, 0xC66, 0xCE6, 0xD66, 0xDE6, 0xE50, 0xED0,
      0xF20, 0x1040, 0x1090, 0x17E0, 0x1810, 0x1946, 0x19D0, 0x1A80,
      0x1A90, 0x1B50, 0x1BB0, 0x1C40, 0x1C50, 0xA620, 0xA8D0, 0xA900,
      0xA9D0, 0xA9F0, 0xAA50, 0xABF0, 0xFF10, 0x104A0, 0x10D30, 0x11066,
      0x110F0, 0x11136, 0x111D0, 0x112F0, 0x11450, 0x114D0, 0x11650, 0x116C0,
      0x11730, 0x118E0, 0x11950, 0x11C50, 0x11D50, 0x11DA0, 0x16A60, 0x16AC0,
      0x16B50, 0x1D7CE, 0x1D7D8, 0x1D7E2, 0x1D7EC, 0x1D7F6, 0x1E140, 0x1E2F0,
      0x1E950, 0x1FBF0]"

definition decimal_digit :: "nat \<Rightarrow> nat option" where
  "decimal_digit n = map_option (\<lambda>z. n - z) (find (\<lambda>z. z \<le> n \<and> n < z + 10) decimal_zeros)"

text \<open>
  The characters that have a digit value without being decimal digits (superscripts,
  subscripts, circled and parenthesised digits and the like), as ranges of code points
  with both ends included.
\<close>

definition other_digits :: "(nat \<times> nat) list" where
  "other_digits =
     [(0xB2, 0xB3), (0xB9, 0xB9), (0x1369, 0x1371), (0x19DA, 0x19DA),
      (0x2070, 0x2070), (0x2074, 0x2079), (0x2080, 0x2089), (0x2460, 0x2468),
      (0x2474, 0x247C), (0x2488, 0x2490), (0x24EA, 0x24EA), (0x24F5, 0x24FD),
      (0x24FF, 0x24FF), (0x2776, 0x277E), (0x2780, 0x2788), (0x278A, 0x2792),
      (0x10A40, 0x10A43), (0x10E60, 0x10E68), (0x11052, 0x1105A), (0x1F100, 0x1F10A)]"

text \<open>
  \<open>str.isdigit\<close>: the string is not empty and every character is a decimal digit or has a
  digit value.
\<close>

definition digit_char :: "nat \<Rightarrow> bool" where
  "digit_char n \<longleftrightarrow> decimal_digit n \<noteq> None \<or> list_ex (\<lambda>r. fst r \<le> n \<and> n \<le> snd r) other_digits"

definition isdigit :: "string \<Rightarrow> bool" where
  "isdigit s =
     (case code_points s of
        None \<Rightarrow> False
      | Some ns \<Rightarrow> ns \<noteq> [] \<and> list_all digit_char ns)"

definition digit_value :: "nat \<Rightarrow> int" where
  "digit_value n = (case decimal_digit n of Some d \<Rightarrow> int d | None \<Rightarrow> 0)"

definition decimal_value :: "nat list \<Rightarrow> int" where
  "decimal_value ns = foldl (\<lambda>v n. 10 * v + digit_value n) 0 ns"

text \<open>
  \<open>int(s)\<close>, as the handlers call it: only on a string for which \<open>isdigit\<close> holds, so with
  no sign, blank or underscore in it. On such a string it returns the decimal value when
  every character is a decimal digit, of whatever script, and raises \<open>ValueError\<close> when
  a character only has a digit value, like the superscript two. (The interpreter's limit
  of 4300 digits is beyond the length of a chat message and is not modelled.)
\<close>

definition int_str :: "string \<Rightarrow> error + int" where
  "int_str s =
     (case code_points s of
        None \<Rightarrow> Inl ValueError
      | Some ns \<Rightarrow>
          if ns \<noteq> [] \<and> list_all (\<lambda>n. decimal_digit n \<noteq> None) ns then Inr (decimal_value ns)
          else Inl ValueError)"

text \<open>
  The test \<open>not v.isdigit() or int(v) < lo or int(v) > hi\<close> that every numeric step
  repeats with its own bounds; \<open>or\<close> evaluates from the left and stops at the first true
  operand.
\<close>

definition out_of_range :: "string \<Rightarrow> int \<Rightarrow> int \<Rightarrow> error + bool" where
  "out_of_range v lo hi =
     (if \<not> isdigit v then Inr True
      else (case int_str v of
              Inl e \<Rightarrow> Inl e
            | Inr n \<Rightarrow> Inr (n < lo \<or> n > hi)))"

text \<open>
  \<open>str.lower\<close>. The letters A-Z move to a-z, and the letters U+00C0-U+00DE (without the
  multiplication sign U+00D7), whose encodings are \<open>0xC3\<close> and a byte from \<open>0x80\<close> to
  \<open>0x9E\<close>, move to U+00E0-U+00FE. The capital letters beyond U+00FF, which \<open>str.lower\<close>
  changes too, are left as they are: the handlers only ask whether the result is
  \<open>true\<close> or \<open>false\<close> and store it when it is, and no character other than A-Z has a
  letter of these two words as its lower case.
\<close>

definition lower_ascii :: "char \<Rightarrow> char" where
  "lower_ascii c =
     (case map_of (zip ''ABCDEFGHIJKLMNOPQRSTUVWXYZ'' ''abcdefghijklmnopqrstuvwxyz'') c of
        Some d \<Rightarrow> d
      | None \<Rightarrow> c)"

definition latin_upper :: "char list" where
  "latin_upper =
     [CHR 0x80, CHR 0x81, CHR 0x82, CHR 0x83, CHR 0x84, CHR 0x85, CHR 0x86, CHR 0x87,
      CHR 0x88, CHR 0x89, CHR 0x8A, CHR 0x8B, CHR 0x8C, CHR 0x8D, CHR 0x8E, CHR 0x8F,
      CHR 0x90, CHR 0x91, CHR 0x92, CHR 0x93, CHR 0x94, CHR 0x95, CHR 0x96,
      CHR 0x98, CHR 0x99, CHR 0x9A, CHR 0x9B, CHR 0x9C, CHR 0x9D, CHR 0x9E]"

definition latin_lower :: "char list" where
  "latin_lower =
     [CHR 0xA0, CHR 0xA1, CHR 0xA2, CHR 0xA3, CHR 0xA4, CHR 0xA5, CHR 0xA6, CHR 0xA7,
      CHR 0xA8, CHR 0xA9, CHR 0xAA, CHR 0xAB, CHR 0xAC, CHR 0xAD, CHR 0xAE, CHR 0xAF,
      CHR 0xB0, CHR 0xB1, CHR 0xB2, CHR 0xB3, CHR 0xB4, CHR 0xB5, CHR 0xB6,
      CHR 0xB8, CHR 0xB9, CHR 0xBA, CHR 0xBB, CHR 0xBC, CHR 0xBD, CHR 0xBE]"

definition lower_character :: "string \<Rightarrow> string" where
  "lower_character c =
     (case c of
        [a] \<Rightarrow> [lower_ascii a]
      | [a, b] \<Rightarrow>
          (if a = CHR 0xC3 then
             (case map_of (zip latin_upper latin_lower) b of Some d \<Rightarrow> [a, d] | None \<Rightarrow> c)
           else c)
      | _ \<Rightarrow> c)"

definition lower :: "string \<Rightarrow> string" where
  "lower s = concat (map lower_character (characters s))"

text \<open>\<open>sep.join(xs)\<close>.\<close>

fun join :: "string \<Rightarrow> string list \<Rightarrow> string" where
  "join sep [] = []"
| "join sep [x] = x"
| "join sep (x # y # ys) = x @ sep @ join sep (y # ys)"

text \<open>
  A \<open>dict\<close> keeps its keys in the order of their first insertion: an association list
  with one entry for each key. \<open>d[k] = v\<close> replaces the value of a key that is present
  where it stands and appends a new key at the end.
\<close>

fun dict_set :: "('k \<times> 'v) list \<Rightarrow> 'k \<Rightarrow> 'v \<Rightarrow> ('k \<times> 'v) list" where
  "dict_set [] k v = [(k, v)]"
| "dict_set ((k', v') # d) k v =
     (if k' = k then (k, v) # d else (k', v') # dict_set d k v)"

definition dict_has :: "('k \<times> 'v) list \<Rightarrow> 'k \<Rightarrow> bool" where
  "dict_has d k = (map_of d k \<noteq> None)"

section \<open>The CSV store\<close>

text \<open>
  The file \<open>research_data.csv\<close> is modelled by what the \<open>csv\<close> module reads from it and
  writes to it: a list of rows, each a list of cells, the first row being the header.
  \<open>None\<close> is the state in which the file does not exist. Quoting and line ends are the
  \<open>csv\<close> module's business and stay below this model.
\<close>

type_synonym table = "string list list"

definition CSV_COLUMNS :: "string list" where
  "CSV_COLUMNS =
     [''Serial ID'', ''Inventory Tag'', ''Pedaling Rate'', ''Left Brake Rate'',
      ''Right Brake Rate'', ''Tires Rate'', ''Appearence Rate'', ''Battery Level'',
      ''Is Straight Parking Angel'', ''Seat Hight'', ''Location'', ''Speed Rate'',
      ''Note'', ''Date'']"

text \<open>
  A row as \<open>csv.DictReader\<close> returns it: a dict from the header's names to cells, where a
  name beyond the end of a short row maps to Python's \<open>None\<close>, and where the cells beyond
  the header of a long row are kept as a list under the key \<open>None\<close> (here \<open>rest\<close>).
\<close>

record csv_row =
  items :: "(string \<times> string option) list"
  rest :: "string list option"

definition initialize_csv :: "table option \<Rightarrow> table" where
  "initialize_csv f = (case f of None \<Rightarrow> [CSV_COLUMNS] | Some t \<Rightarrow> t)"

definition row_dict :: "string list \<Rightarrow> string list \<Rightarrow> csv_row" where
  "row_dict fieldnames row =
     \<lparr>items = fold (\<lambda>kv d. dict_set d (fst kv) (snd kv))
                (zip fieldnames (map Some row) @
                 map (\<lambda>k. (k, None)) (drop (length row) fieldnames)) [],
      rest = (if length fieldnames < length row then Some (drop (length fieldnames) row)
              else None)\<rparr>"

definition DictReader :: "table \<Rightarrow> csv_row list" where
  "DictReader t =
     (case t of
        [] \<Rightarrow> []
      | fieldnames # rows \<Rightarrow> map (row_dict fieldnames) (filter (\<lambda>r. r \<noteq> []) rows))"

text \<open>\<open>read_csv\<close> returns the rows and the file as \<open>initialize_csv\<close> has left it.\<close>

definition read_csv :: "table option \<Rightarrow> csv_row list \<times> table option" where
  "read_csv f = (let t = initialize_csv f in (DictReader t, Some t))"

text \<open>
  \<open>csv.DictWriter\<close> with \<open>fieldnames=CSV_COLUMNS\<close>: a dict with a key that is no column
  raises \<open>ValueError\<close>; a missing key and a \<open>None\<close> value are written as the empty cell.
\<close>

definition dict_to_list :: "csv_row \<Rightarrow> error + string list" where
  "dict_to_list r =
     (if rest r \<noteq> None \<or> \<not> list_all (\<lambda>k. k \<in> set CSV_COLUMNS) (map fst (items r))
      then Inl ValueError
      else Inr (map (\<lambda>k. case map_of (items r) k of Some (Some v) \<Rightarrow> v | _ \<Rightarrow> [])
                  CSV_COLUMNS))"

text \<open>
  \<open>writerows\<close> writes row after row; when a row raises, the rows before it have been
  written and stay in the file.
\<close>

fun writerows :: "csv_row list \<Rightarrow> error option \<times> table" where
  "writerows [] = (None, [])"
| "writerows (r # rs) =
     (case dict_to_list r of
        Inl e \<Rightarrow> (Some e, [])
      | Inr cells \<Rightarrow> (case writerows rs of (e, t) \<Rightarrow> (e, cells # t)))"

definition write_csv :: "csv_row list \<Rightarrow> error option \<times> table" where
  "write_csv data = (case writerows data of (e, t) \<Rightarrow> (e, CSV_COLUMNS # t))"

text \<open>
  The format of the backing table: the header is the list of columns and every row has one
  cell for each column.
\<close>

definition store_format :: "table \<Rightarrow> bool" where
  "store_format t =
     (case t of
        [] \<Rightarrow> False
      | h # rows \<Rightarrow> h = CSV_COLUMNS \<and> list_all (\<lambda>r. length r = length CSV_COLUMNS) rows)"

section \<open>Messages, keyboards and the session\<close>

text \<open>
  A message that reaches a conversation handler carries a text or a location; the other
  attribute is \<open>None\<close>. Latitude and longitude are kept in the form in which the f-string
  prints them.
\<close>

datatype message = Text string | LocationMsg string string

fun message_text :: "message \<Rightarrow> string option" where
  "message_text (Text t) = Some t"
| "message_text (LocationMsg lat lon) = None"

fun message_location :: "message \<Rightarrow> (string \<times> string) option" where
  "message_location (Text t) = None"
| "message_location (LocationMsg lat lon) = Some (lat, lon)"

datatype button = Button string | LocationButton string

datatype markup = ReplyKeyboardMarkup "button list list" | ReplyKeyboardRemove | NoMarkup

definition get_rate_keyboard :: markup where
  "get_rate_keyboard = ReplyKeyboardMarkup
     [map Button [''0'', ''1'', ''2'', ''3'', ''4''],
      map Button [''5'', ''6'', ''7'', ''8'', ''9'', ''10''],
      map Button [''Back'', ''Skip'']]"

definition get_battery_keyboard :: markup where
  "get_battery_keyboard = ReplyKeyboardMarkup
     [map Button [''0'', ''1'', ''2'', ''3'', ''4''],
      map Button [''Back'', ''Skip'']]"

definition get_boolean_keyboard :: markup where
  "get_boolean_keyboard = ReplyKeyboardMarkup
     [map Button [''True'', ''False''],
      map Button [''Back'', ''Skip'']]"

definition get_seat_height_keyboard :: markup where
  "get_seat_height_keyboard = ReplyKeyboardMarkup
     [map Button [''1'', ''2'', ''3'', ''4'', ''5''],
      map Button [''6'', ''7'', ''8'', ''9'', ''10''],
      map Button [''Back'', ''Skip'']]"

definition get_location_keyboard :: markup where
  "get_location_keyboard = ReplyKeyboardMarkup
     [[LocationButton ''Share Location''],
      map Button [''Back'', ''Skip'']]"

definition get_serial_id_keyboard :: markup where
  "get_serial_id_keyboard = ReplyKeyboardMarkup [[Button ''Cancel'']]"

definition get_text_input_keyboard :: markup where
  "get_text_input_keyboard = ReplyKeyboardMarkup [map Button [''Back'', ''Skip'']]"

definition get_note_keyboard :: markup where
  "get_note_keyboard = ReplyKeyboardMarkup [map Button [''Back'', ''Skip'']]"

datatype conv_state =
    SERIAL_ID | INVENTORY_TAG | LOCATION | PARKING_ANGEL | TIRES_RATE | SEAT_HEIGHT
  | APPEARENCE_RATE | BATTERY_LEVEL | LEFT_BRAKE_RATE | RIGHT_BRAKE_RATE | PEDALING_RATE
  | SPEED_RATE | NOTE | UPDATE_FIELD | UPDATE_VALUE | ConversationHandler_END

text \<open>
  \<open>context.user_data\<close> is a dict with up to four keys; a key that is absent is \<open>None\<close>
  here, and reading it raises \<open>KeyError\<close>. The in-progress record
  \<open>user_data['research_data']\<close> is a dict from field names to strings.
\<close>

record user_data =
  ud_research_data :: "(string \<times> string) list option"
  ud_update_serial_id :: "string option"
  ud_update_record :: "csv_row option"
  ud_update_field :: "string option"

definition cleared :: user_data where
  "cleared = \<lparr>ud_research_data = None, ud_update_serial_id = None,
               ud_update_record = None, ud_update_field = None\<rparr>"

text \<open>
  What a handler reads and changes: the session, the file of the store and the messages
  sent to the chat, the oldest first.
\<close>

record world =
  user_data :: user_data
  csv_file :: "table option"
  outbox :: "(string \<times> markup) list"

text \<open>
  A handler ends by returning the next state of the conversation or by raising; in both
  cases the world is left as the statements before have changed it.
\<close>

type_synonym outcome = "(error + conv_state) \<times> world"

definition reply_text :: "string \<Rightarrow> markup \<Rightarrow> world \<Rightarrow> world" where
  "reply_text txt kb w = w\<lparr>outbox := outbox w @ [(txt, kb)]\<rparr>"

definition set_research_data :: "(string \<times> string) list \<Rightarrow> world \<Rightarrow> world" where
  "set_research_data rd w = w\<lparr>user_data := (user_data w)\<lparr>ud_research_data := Some rd\<rparr>\<rparr>"

text \<open>\<open>context.user_data['research_data'][F] = v\<close>.\<close>

definition store_field :: "string \<Rightarrow> string \<Rightarrow> world \<Rightarrow> error + world" where
  "store_field F v w =
     (case ud_research_data (user_data w) of
        None \<Rightarrow> Inl KeyError
      | Some rd \<Rightarrow> Inr (set_research_data (dict_set rd F v) w))"

text \<open>The body of every \<open>Skip\<close> branch of the add flow:
  \<open>if F not in context.user_data['research_data']: context.user_data['research_data'][F] = 'N/A'\<close>.\<close>

definition skip_field :: "string \<Rightarrow> world \<Rightarrow> error + world" where
  "skip_field F w =
     (case ud_research_data (user_data w) of
        None \<Rightarrow> Inl KeyError
      | Some rd \<Rightarrow>
          Inr (if \<not> dict_has rd F then set_research_data (dict_set rd F ''N/A'') w else w))"

text \<open>The end of a handler that goes on: when the statements before have raised, the
  exception leaves the world \<open>w0\<close>; otherwise the next prompt is sent.\<close>

definition proceed ::
  "error + world \<Rightarrow> world \<Rightarrow> conv_state \<Rightarrow> string \<Rightarrow> markup \<Rightarrow> outcome" where
  "proceed r w0 nxt txt kb =
     (case r of
        Inl e \<Rightarrow> (Inl e, w0)
      | Inr w1 \<Rightarrow> (Inr nxt, reply_text txt kb w1))"

section \<open>The add flow\<close>

definition add_start :: "world \<Rightarrow> outcome" where
  "add_start w =
     (Inr SERIAL_ID,
      reply_text ''Enter Serial ID:'' get_serial_id_keyboard (set_research_data [] w))"

definition add_serial_id :: "string \<Rightarrow> world \<Rightarrow> outcome" where
  "add_serial_id text w =
     (if text = ''Cancel'' then
        (Inr ConversationHandler_END,
         reply_text ''Cancelled'' ReplyKeyboardRemove (w\<lparr>user_data := cleared\<rparr>))
      else proceed (store_field ''Serial ID'' text w) w
             INVENTORY_TAG ''Enter Inventory Tag:'' get_text_input_keyboard)"

definition add_inventory_tag :: "string \<Rightarrow> world \<Rightarrow> outcome" where
  "add_inventory_tag text w =
     (if text = ''Skip'' then
        proceed (skip_field ''Inventory Tag'' w) w
          LOCATION ''Location:'' get_location_keyboard
      else if text = ''Back'' then
        (Inr SERIAL_ID, reply_text ''Enter Serial ID:'' get_serial_id_keyboard w)
      else proceed (store_field ''Inventory Tag'' text w) w
             LOCATION ''Location:'' get_location_keyboard)"

definition add_location :: "message \<Rightarrow> world \<Rightarrow> outcome" where
  "add_location msg w =
     (if message_text msg = Some ''Skip'' then
        proceed (skip_field ''Location'' w) w
          PARKING_ANGEL ''Is Straight Parking Angel? '' get_boolean_keyboard
      else if message_text msg = Some ''Back'' then
        (Inr INVENTORY_TAG, reply_text ''Enter Inventory Tag:'' get_text_input_keyboard w)
      else (case message_location msg of
              Some (latitude, longitude) \<Rightarrow>
                proceed (store_field ''Location'' (latitude @ '', '' @ longitude) w) w
                  PARKING_ANGEL ''Is Straight Parking Angel? '' get_boolean_keyboard
            | None \<Rightarrow>
                (Inr LOCATION, reply_text ''Please share location or skip:'' NoMarkup w)))"

definition add_parking_angel :: "string \<Rightarrow> world \<Rightarrow> outcome" where
  "add_parking_angel text w =
     (if text = ''Skip'' then
        proceed (skip_field ''Is Straight Parking Angel'' w) w
          TIRES_RATE ''Tires Rate (0-10):'' get_rate_keyboard
      else if text = ''Back'' then
        (Inr LOCATION, reply_text ''Location:'' get_location_keyboard w)
      else if lower text \<notin> set [''true'', ''false''] then
        (Inr PARKING_ANGEL, reply_text ''Select 'True' or 'False':'' NoMarkup w)
      else proceed (store_field ''Is Straight Parking Angel'' (lower text) w) w
             TIRES_RATE ''Tires Rate (0-10):'' get_rate_keyboard)"

text \<open>
  The eight numeric handlers have one body and differ in its constants: the field, the
  bounds, the complaint, the state of the step, and the state, prompt and keyboard of the
  step before and of the step after.
\<close>

definition rate_step ::
  "string \<Rightarrow> int \<Rightarrow> int \<Rightarrow> string \<Rightarrow> conv_state \<Rightarrow> conv_state \<Rightarrow> string \<times> markup \<Rightarrow>
   conv_state \<Rightarrow> string \<times> markup \<Rightarrow> string \<Rightarrow> world \<Rightarrow> outcome" where
  "rate_step F lo hi complaint here back back_prompt nxt next_prompt text w =
     (if text = ''Skip'' then
        proceed (skip_field F w) w nxt (fst next_prompt) (snd next_prompt)
      else if text = ''Back'' then
        (Inr back, reply_text (fst back_prompt) (snd back_prompt) w)
      else (case out_of_range text lo hi of
              Inl e \<Rightarrow> (Inl e, w)
            | Inr True \<Rightarrow> (Inr here, reply_text complaint NoMarkup w)
            | Inr False \<Rightarrow>
                proceed (store_field F text w) w nxt (fst next_prompt) (snd next_prompt)))"

definition add_tires_rate :: "string \<Rightarrow> world \<Rightarrow> outcome" where
  "add_tires_rate =
     rate_step ''Tires Rate'' 0 10 ''Select a valid rate (0-10):'' TIRES_RATE
       PARKING_ANGEL (''Is Straight Parking Angel?'', get_boolean_keyboard)
       SEAT_HEIGHT (''Seat Hight (1-10):'', get_seat_height_keyboard)"

definition add_seat_height :: "string \<Rightarrow> world \<Rightarrow> outcome" where
  "add_seat_height =
     rate_step ''Seat Hight'' 1 10 ''Select a valid height (1-10):'' SEAT_HEIGHT
       TIRES_RATE (''Tires Rate (0-10):'', get_rate_keyboard)
       APPEARENCE_RATE (''Appearence Rate (0-10):'', get_rate_keyboard)"

definition add_appearence_rate :: "string \<Rightarrow> world \<Rightarrow> outcome" where
  "add_appearence_rate =
     rate_step ''Appearence Rate'' 0 10 ''Select a valid rate (0-10):'' APPEARENCE_RATE
       SEAT_HEIGHT (''Seat Hight (1-10):'', get_seat_height_keyboard)
       BATTERY_LEVEL (''Battery Level (0-4):'', get_battery_keyboard)"

definition add_battery_level :: "string \<Rightarrow> world \<Rightarrow> outcome" where
  "add_battery_level =
     rate_step ''Battery Level'' 0 4 ''Select a valid battery level (0-4):'' BATTERY_LEVEL
       APPEARENCE_RATE (''Appearence Rate (0-10):'', get_rate_keyboard)
       LEFT_BRAKE_RATE (''Left Brake Rate (0-10):'', get_rate_keyboard)"

definition add_left_brake_rate :: "string \<Rightarrow> world \<Rightarrow> outcome" where
  "add_left_brake_rate =
     rate_step ''Left Brake Rate'' 0 10 ''Select a valid rate (0-10):'' LEFT_BRAKE_RATE
       BATTERY_LEVEL (''Battery Level (0-4):'', get_battery_keyboard)
       RIGHT_BRAKE_RATE (''Right Brake Rate (0-10):'', get_rate_keyboard)"

definition add_right_brake_rate :: "string \<Rightarrow> world \<Rightarrow> outcome" where
  "add_right_brake_rate =
     rate_step ''Right Brake Rate'' 0 10 ''Select a valid rate (0-10):'' RIGHT_BRAKE_RATE
       LEFT_BRAKE_RATE (''Left Brake Rate (0-10):'', get_rate_keyboard)
       PEDALING_RATE (''Pedaling Rate (0-10):'', get_rate_keyboard)"

definition add_pedaling_rate :: "string \<Rightarrow> world \<Rightarrow> outcome" where
  "add_pedaling_rate =
     rate_step ''Pedaling Rate'' 0 10 ''Select a valid rate (0-10):'' PEDALING_RATE
       RIGHT_BRAKE_RATE (''Right Brake Rate (0-10):'', get_rate_keyboard)
       SPEED_RATE (''Speed Rate (0-10):'', get_rate_keyboard)"

definition add_speed_rate :: "string \<Rightarrow> world \<Rightarrow> outcome" where
  "add_speed_rate =
     rate_step ''Speed Rate'' 0 10 ''Select a valid rate (0-10):'' SPEED_RATE
       PEDALING_RATE (''Pedaling Rate (0-10):'', get_rate_keyboard)
       NOTE (''Any notes?'', get_note_keyboard)"

text \<open>
  The clock, as \<open>datetime.now()\<close> reads it, is an argument of the last handler.
  \<open>strftime("%Y-%m-%d %H:%M:%S")\<close> prints the year in full and the other parts with two
  digits.
\<close>

record datetime =
  year :: nat
  month :: nat
  day :: nat
  hour :: nat
  minute :: nat
  second :: nat

definition ascii_digits :: "char list" where
  "ascii_digits = ''0123456789''"

fun dec :: "nat \<Rightarrow> string" where
  "dec n =
     (if n < 10 then [ascii_digits ! n]
      else dec (n div 10) @ [ascii_digits ! (n mod 10)])"

declare dec.simps [simp del]

definition two_digits :: "nat \<Rightarrow> string" where
  "two_digits n = (if n < 10 then CHR ''0'' # dec n else dec n)"

definition strftime :: "datetime \<Rightarrow> string" where
  "strftime now =
     dec (year now) @ ''-'' @ two_digits (month now) @ ''-'' @ two_digits (day now) @ '' '' @
     two_digits (hour now) @ '':'' @ two_digits (minute now) @ '':'' @ two_digits (second now)"

definition format_summary :: "(string \<times> string) list \<Rightarrow> string" where
  "format_summary data =
     foldl (\<lambda>summary (key, val). summary @ key @ '': '' @ val @ [CHR 0x0A])
       (''Summary:'' @ [CHR 0x0A, CHR 0x0A]) data"

text \<open>The in-progress record as a row of the list that \<open>read_csv\<close> has returned.\<close>

definition record_row :: "(string \<times> string) list \<Rightarrow> csv_row" where
  "record_row rd = \<lparr>items = map (\<lambda>(k, v). (k, Some v)) rd, rest = None\<rparr>"

text \<open>Lines 490 to 510 of \<open>add_note\<close>: the timestamp, the summary, the write, the end.\<close>

definition save_record :: "datetime \<Rightarrow> world \<Rightarrow> outcome" where
  "save_record now w =
     (case ud_research_data (user_data w) of
        None \<Rightarrow> (Inl KeyError, w)
      | Some rd0 \<Rightarrow>
          (let rd = dict_set rd0 ''Date'' (strftime now);
               w1 = reply_text (format_summary rd) ReplyKeyboardRemove (set_research_data rd w);
               data = fst (read_csv (csv_file w1));
               written = write_csv (data @ [record_row rd]);
               w2 = w1\<lparr>csv_file := Some (snd written)\<rparr>
           in (case fst written of
                 Some e \<Rightarrow> (Inl e, w2)
               | None \<Rightarrow>
                   (Inr ConversationHandler_END,
                    (reply_text ''Saved'' NoMarkup w2)\<lparr>user_data := cleared\<rparr>))))"

definition add_note :: "datetime \<Rightarrow> string \<Rightarrow> world \<Rightarrow> outcome" where
  "add_note now text w =
     (if text = ''Back'' then
        (Inr SPEED_RATE, reply_text ''Speed Rate (0-10):'' get_rate_keyboard w)
      else (case (if text = ''Skip'' then skip_field ''Note'' w
                  else store_field ''Note'' text w) of
              Inl e \<Rightarrow> (Inl e, w)
            | Inr w1 \<Rightarrow> save_record now w1))"

text \<open>
  The table \<open>states\<close> of the add conversation in \<open>main\<close>: every state has a handler for
  text messages, \<open>LOCATION\<close> has one for location messages too. A message without a
  handler leaves the conversation where it is.
\<close>

fun add_handler :: "datetime \<Rightarrow> conv_state \<Rightarrow> message \<Rightarrow> world \<Rightarrow> outcome" where
  "add_handler now SERIAL_ID (Text t) w = add_serial_id t w"
| "add_handler now INVENTORY_TAG (Text t) w = add_inventory_tag t w"
| "add_handler now LOCATION msg w = add_location msg w"
| "add_handler now PARKING_ANGEL (Text t) w = add_parking_angel t w"
| "add_handler now TIRES_RATE (Text t) w = add_tires_rate t w"
| "add_handler now SEAT_HEIGHT (Text t) w = add_seat_height t w"
| "add_handler now APPEARENCE_RATE (Text t) w = add_appearence_rate t w"
| "add_handler now BATTERY_LEVEL (Text t) w = add_battery_level t w"
| "add_handler now LEFT_BRAKE_RATE (Text t) w = add_left_brake_rate t w"
| "add_handler now RIGHT_BRAKE_RATE (Text t) w = add_right_brake_rate t w"
| "add_handler now PEDALING_RATE (Text t) w = add_pedaling_rate t w"
| "add_handler now SPEED_RATE (Text t) w = add_speed_rate t w"
| "add_handler now NOTE (Text t) w = add_note now t w"
| "add_handler now S msg w = (Inr S, w)"

text \<open>
  A conversation: the messages are handled one after the other, each in the state that
  the one before has returned. A handler that raises leaves the state as it was, and
  \<open>error_handler\<close> tells the user. After the end no message is handled.
\<close>

fun add_conversation ::
  "datetime \<Rightarrow> conv_state \<Rightarrow> world \<Rightarrow> message list \<Rightarrow> conv_state \<times> world" where
  "add_conversation now S w [] = (S, w)"
| "add_conversation now S w (msg # msgs) =
     (if S = ConversationHandler_END then (S, w)
      else (case add_handler now S msg w of
              (Inl e, w') \<Rightarrow>
                add_conversation now S
                  (reply_text ''An error occurred. Please try again.'' NoMarkup w') msgs
            | (Inr S', w') \<Rightarrow> add_conversation now S' w' msgs))"

text \<open>The command \<open>/add\<close> followed by the messages of the user.\<close>

definition add_flow :: "datetime \<Rightarrow> world \<Rightarrow> message list \<Rightarrow> conv_state \<times> world" where
  "add_flow now w msgs = add_conversation now SERIAL_ID (snd (add_start w)) msgs"

section \<open>Deleting and updating\<close>

text \<open>
  \<open>context.args\<close> is made by the chat library from the text of the command, as
  \<open>message.text.split()[1:]\<close>: the text is cut at every run of white space, and the
  command itself is left out. The white space characters are U+0009 to U+000D, U+001C to
  U+0020, U+0085, U+00A0, U+1680, U+2000 to U+200A, U+2028, U+2029, U+202F, U+205F and
  U+3000, here in their encodings.
\<close>

definition whitespace :: "string list" where
  "whitespace =
     [[CHR 0x09], [CHR 0x0A], [CHR 0x0B],
      [CHR 0x0C], [CHR 0x0D], [CHR 0x1C],
      [CHR 0x1D], [CHR 0x1E], [CHR 0x1F],
      [CHR 0x20], [CHR 0xC2, CHR 0x85], [CHR 0xC2, CHR 0xA0],
      [CHR 0xE1, CHR 0x9A, CHR 0x80], [CHR 0xE2, CHR 0x80, CHR 0x80], [CHR 0xE2, CHR 0x80, CHR 0x81],
      [CHR 0xE2, CHR 0x80, CHR 0x82], [CHR 0xE2, CHR 0x80, CHR 0x83], [CHR 0xE2, CHR 0x80, CHR 0x84],
      [CHR 0xE2, CHR 0x80, CHR 0x85], [CHR 0xE2, CHR 0x80, CHR 0x86], [CHR 0xE2, CHR 0x80, CHR 0x87],
      [CHR 0xE2, CHR 0x80, CHR 0x88], [CHR 0xE2, CHR 0x80, CHR 0x89], [CHR 0xE2, CHR 0x80, CHR 0x8A],
      [CHR 0xE2, CHR 0x80, CHR 0xA8], [CHR 0xE2, CHR 0x80, CHR 0xA9], [CHR 0xE2, CHR 0x80, CHR 0xAF],
      [CHR 0xE2, CHR 0x81, CHR 0x9F], [CHR 0xE3, CHR 0x80, CHR 0x80]]"

text \<open>\<open>split_words cur cs\<close> cuts the characters \<open>cs\<close>, where \<open>cur\<close> is the word that
  has been begun.\<close>

fun split_words :: "string \<Rightarrow> string list \<Rightarrow> string list" where
  "split_words cur [] = (if cur = [] then [] else [cur])"
| "split_words cur (c # cs) =
     (if c \<in> set whitespace then (if cur = [] then [] else [cur]) @ split_words [] cs
      else split_words (cur @ c) cs)"

definition str_split :: "string \<Rightarrow> string list" where
  "str_split s = split_words [] (characters s)"

definition command_args :: "string \<Rightarrow> string list" where
  "command_args text = tl (str_split text)"

text \<open>\<open>[row for row in data if row['Serial ID'] != serial_id]\<close>; a row without the
  key raises \<open>KeyError\<close>.\<close>

fun rows_without :: "string \<Rightarrow> csv_row list \<Rightarrow> error + csv_row list" where
  "rows_without serial_id [] = Inr []"
| "rows_without serial_id (row # data) =
     (case map_of (items row) ''Serial ID'' of
        None \<Rightarrow> Inl KeyError
      | Some v \<Rightarrow>
          (case rows_without serial_id data of
             Inl e \<Rightarrow> Inl e
           | Inr kept \<Rightarrow> Inr (if v \<noteq> Some serial_id then row # kept else kept)))"

definition quoted :: "string \<Rightarrow> string" where
  "quoted s = [CHR 0x27] @ s @ [CHR 0x27]"

text \<open>\<open>delete_command\<close> is no conversation handler: it returns nothing or raises.\<close>

definition delete_command :: "string list \<Rightarrow> world \<Rightarrow> error option \<times> world" where
  "delete_command args w =
     (if args = [] then (None, reply_text ''Usage: /delete <Serial ID>'' NoMarkup w)
      else
        (let serial_id = join '' '' args;
             rd = read_csv (csv_file w);
             w1 = w\<lparr>csv_file := snd rd\<rparr>
         in (case rows_without serial_id (fst rd) of
               Inl e \<Rightarrow> (Some e, w1)
             | Inr data \<Rightarrow>
                 if length data < length (fst rd) then
                   (let written = write_csv data;
                        w2 = w1\<lparr>csv_file := Some (snd written)\<rparr>
                    in (case fst written of
                          Some e \<Rightarrow> (Some e, w2)
                        | None \<Rightarrow>
                            (None, reply_text (''Deleted '' @ quoted serial_id) NoMarkup w2)))
                 else (None, reply_text (''Not found '' @ quoted serial_id) NoMarkup w1))))"

text \<open>The loop of \<open>update_start\<close>: the first row whose Serial ID is the given one.\<close>

fun find_record :: "string \<Rightarrow> csv_row list \<Rightarrow> error + csv_row option" where
  "find_record serial_id [] = Inr None"
| "find_record serial_id (row # data) =
     (case map_of (items row) ''Serial ID'' of
        None \<Rightarrow> Inl KeyError
      | Some v \<Rightarrow> if v = Some serial_id then Inr (Some row) else find_record serial_id data)"

definition field_keyboard :: markup where
  "field_keyboard = ReplyKeyboardMarkup
     (map (\<lambda>col. [Button col])
        (filter (\<lambda>col. col \<notin> set [''Serial ID'', ''Date'']) CSV_COLUMNS)
      @ [[Button ''Cancel'']])"

definition update_start :: "string list \<Rightarrow> world \<Rightarrow> outcome" where
  "update_start args w =
     (if args = [] then
        (Inr ConversationHandler_END, reply_text ''Usage: /update <Serial ID>'' NoMarkup w)
      else
        (let serial_id = join '' '' args;
             rd = read_csv (csv_file w);
             w1 = w\<lparr>csv_file := snd rd\<rparr>
         in (case find_record serial_id (fst rd) of
               Inl e \<Rightarrow> (Inl e, w1)
             | Inr None \<Rightarrow>
                 (Inr ConversationHandler_END,
                  reply_text (''Not found '' @ quoted serial_id) NoMarkup w1)
             | Inr (Some rec) \<Rightarrow>
                 (Inr UPDATE_FIELD,
                  reply_text (''Update field for '' @ quoted serial_id @ '':'') field_keyboard
                    (w1\<lparr>user_data := (user_data w1)
                          \<lparr>ud_update_serial_id := Some serial_id,
                           ud_update_record := Some rec\<rparr>\<rparr>)))))"

definition rate_fields :: "string list" where
  "rate_fields = [''Pedaling Rate'', ''Left Brake Rate'', ''Right Brake Rate'',
                  ''Tires Rate'', ''Appearence Rate'', ''Speed Rate'']"

definition update_field :: "string \<Rightarrow> world \<Rightarrow> outcome" where
  "update_field field w =
     (if field = ''Cancel'' then
        (Inr ConversationHandler_END,
         reply_text ''Cancelled'' ReplyKeyboardRemove (w\<lparr>user_data := cleared\<rparr>))
      else if field \<notin> set CSV_COLUMNS \<or> field \<in> set [''Serial ID'', ''Date''] then
        (Inr UPDATE_FIELD, reply_text ''Invalid field'' NoMarkup w)
      else
        (let w1 = w\<lparr>user_data := (user_data w)\<lparr>ud_update_field := Some field\<rparr>\<rparr>;
             prompt =
               (if field \<in> set rate_fields then
                  (''New '' @ field @ '' (0-10):'', get_rate_keyboard)
                else if field = ''Battery Level'' then
                  (''New '' @ field @ '' (0-4):'', get_battery_keyboard)
                else if field = ''Is Straight Parking Angel'' then
                  (''New '' @ field @ '':'', get_boolean_keyboard)
                else if field = ''Seat Hight'' then
                  (''New '' @ field @ '' (1-10):'', get_seat_height_keyboard)
                else if field = ''Location'' then
                  (''New Location:'', get_location_keyboard)
                else (''New '' @ field @ '':'', get_text_input_keyboard))
         in (Inr UPDATE_VALUE, reply_text (fst prompt) (snd prompt) w1)))"

text \<open>The loop of \<open>update_value\<close>: \<open>row[field] = value\<close> in the first row whose
  Serial ID is the given one; \<open>None\<close> is Python's \<open>None\<close>.\<close>

fun set_first :: "string \<Rightarrow> string \<Rightarrow> string option \<Rightarrow> csv_row list \<Rightarrow> error + csv_row list" where
  "set_first serial_id field val [] = Inr []"
| "set_first serial_id field val (row # data) =
     (case map_of (items row) ''Serial ID'' of
        None \<Rightarrow> Inl KeyError
      | Some v \<Rightarrow>
          if v = Some serial_id then Inr (row\<lparr>items := dict_set (items row) field val\<rparr> # data)
          else (case set_first serial_id field val data of
                  Inl e \<Rightarrow> Inl e
                | Inr data' \<Rightarrow> Inr (row # data')))"

text \<open>Lines 661 to 680 of \<open>update_value\<close>: the write of the value and the end.\<close>

definition write_value :: "string option \<Rightarrow> world \<Rightarrow> outcome" where
  "write_value val w =
     (case ud_update_field (user_data w) of
        None \<Rightarrow> (Inl KeyError, w)
      | Some field \<Rightarrow>
     (case ud_update_serial_id (user_data w) of
        None \<Rightarrow> (Inl KeyError, w)
      | Some serial_id \<Rightarrow>
          (let rd = read_csv (csv_file w);
               w1 = w\<lparr>csv_file := snd rd\<rparr>
           in (case set_first serial_id field val (fst rd) of
                 Inl e \<Rightarrow> (Inl e, w1)
               | Inr data \<Rightarrow>
                   (let written = write_csv data;
                        w2 = w1\<lparr>csv_file := Some (snd written)\<rparr>
                    in (case fst written of
                          Some e \<Rightarrow> (Inl e, w2)
                        | None \<Rightarrow>
                            (Inr ConversationHandler_END,
                             (reply_text ''Updated'' ReplyKeyboardRemove w2)
                               \<lparr>user_data := cleared\<rparr>)))))))"

text \<open>The numeric branches of \<open>update_value\<close>: \<open>value.isdigit()\<close> raises
  \<open>AttributeError\<close> when the message has no text.\<close>

definition update_rate ::
  "string option \<Rightarrow> int \<Rightarrow> int \<Rightarrow> string \<Rightarrow> world \<Rightarrow> outcome" where
  "update_rate val lo hi complaint w =
     (case val of
        None \<Rightarrow> (Inl AttributeError, w)
      | Some v \<Rightarrow>
          (case out_of_range v lo hi of
             Inl e \<Rightarrow> (Inl e, w)
           | Inr True \<Rightarrow> (Inr UPDATE_VALUE, reply_text complaint NoMarkup w)
           | Inr False \<Rightarrow> write_value val w))"

definition update_value :: "message \<Rightarrow> world \<Rightarrow> outcome" where
  "update_value msg w =
     (if message_text msg = Some ''Skip'' then write_value (Some ''N/A'') w
      else if message_text msg = Some ''Back'' then
        (case ud_update_serial_id (user_data w) of
           None \<Rightarrow> (Inl KeyError, w)
         | Some serial_id \<Rightarrow>
             (Inr UPDATE_FIELD,
              reply_text (''Update field for '' @ quoted serial_id @ '':'') field_keyboard w))
      else
        (case ud_update_field (user_data w) of
           None \<Rightarrow> (Inl KeyError, w)
         | Some field \<Rightarrow>
             if field = ''Location'' then
               (case message_location msg of
                  Some (latitude, longitude) \<Rightarrow>
                    write_value (Some (latitude @ '', '' @ longitude)) w
                | None \<Rightarrow> (Inr UPDATE_VALUE, reply_text ''Share location or skip:'' NoMarkup w))
             else if field \<in> set [''Note'', ''Inventory Tag''] then
               write_value (message_text msg) w
             else if field \<in> set rate_fields then
               update_rate (message_text msg) 0 10 ''Select a valid rate (0-10):'' w
             else if field = ''Battery Level'' then
               update_rate (message_text msg) 0 4 ''Select a valid battery level (0-4):'' w
             else if field = ''Is Straight Parking Angel'' then
               (case message_text msg of
                  None \<Rightarrow> (Inl AttributeError, w)
                | Some v \<Rightarrow>
                    if lower v \<notin> set [''true'', ''false''] then
                      (Inr UPDATE_VALUE, reply_text ''Select 'True' or 'False':'' NoMarkup w)
                    else write_value (Some (lower v)) w)
             else if field = ''Seat Hight'' then
               update_rate (message_text msg) 1 10 ''Select a valid height (1-10):'' w
             else write_value (message_text msg) w))"

text \<open>The table \<open>states\<close> of the update conversation in \<open>main\<close>.\<close>

fun update_handler :: "conv_state \<Rightarrow> message \<Rightarrow> world \<Rightarrow> outcome" where
  "update_handler UPDATE_FIELD (Text t) w = update_field t w"
| "update_handler UPDATE_VALUE msg w = update_value msg w"
| "update_handler S msg w = (Inr S, w)"

fun update_conversation :: "conv_state \<Rightarrow> world \<Rightarrow> message list \<Rightarrow> conv_state \<times> world" where
  "update_conversation S w [] = (S, w)"
| "update_conversation S w (msg # msgs) =
     (if S = ConversationHandler_END then (S, w)
      else (case update_handler S msg w of
              (Inl e, w') \<Rightarrow>
                update_conversation S
                  (reply_text ''An error occurred. Please try again.'' NoMarkup w') msgs
            | (Inr S', w') \<Rightarrow> update_conversation S' w' msgs))"

text \<open>The command \<open>/update\<close> with its arguments, followed by the messages of the user.
  When \<open>update_start\<close> raises, no conversation begins.\<close>

definition update_flow :: "string list \<Rightarrow> world \<Rightarrow> message list \<Rightarrow> conv_state \<times> world" where
  "update_flow args w msgs =
     (case update_start args w of
        (Inl e, w') \<Rightarrow>
          (ConversationHandler_END,
           reply_text ''An error occurred. Please try again.'' NoMarkup w')
      | (Inr S, w') \<Rightarrow> update_conversation S w' msgs)"

section \<open>The terms of the specification\<close>

text \<open>
  The order of the steps of the add flow and the field that each step asks for, as the
  specification lists them; a state outside the add flow has no field.
\<close>

definition add_steps :: "conv_state list" where
  "add_steps = [SERIAL_ID, INVENTORY_TAG, LOCATION, PARKING_ANGEL, TIRES_RATE, SEAT_HEIGHT,
                APPEARENCE_RATE, BATTERY_LEVEL, LEFT_BRAKE_RATE, RIGHT_BRAKE_RATE,
                PEDALING_RATE, SPEED_RATE, NOTE]"

fun step_field :: "conv_state \<Rightarrow> string" where
  "step_field SERIAL_ID = ''Serial ID''"
| "step_field INVENTORY_TAG = ''Inventory Tag''"
| "step_field LOCATION = ''Location''"
| "step_field PARKING_ANGEL = ''Is Straight Parking Angel''"
| "step_field TIRES_RATE = ''Tires Rate''"
| "step_field SEAT_HEIGHT = ''Seat Hight''"
| "step_field APPEARENCE_RATE = ''Appearence Rate''"
| "step_field BATTERY_LEVEL = ''Battery Level''"
| "step_field LEFT_BRAKE_RATE = ''Left Brake Rate''"
| "step_field RIGHT_BRAKE_RATE = ''Right Brake Rate''"
| "step_field PEDALING_RATE = ''Pedaling Rate''"
| "step_field SPEED_RATE = ''Speed Rate''"
| "step_field NOTE = ''Note''"
| "step_field S = []"

fun next_state :: "conv_state \<Rightarrow> conv_state" where
  "next_state SERIAL_ID = INVENTORY_TAG"
| "next_state INVENTORY_TAG = LOCATION"
| "next_state LOCATION = PARKING_ANGEL"
| "next_state PARKING_ANGEL = TIRES_RATE"
| "next_state TIRES_RATE = SEAT_HEIGHT"
| "next_state SEAT_HEIGHT = APPEARENCE_RATE"
| "next_state APPEARENCE_RATE = BATTERY_LEVEL"
| "next_state BATTERY_LEVEL = LEFT_BRAKE_RATE"
| "next_state LEFT_BRAKE_RATE = RIGHT_BRAKE_RATE"
| "next_state RIGHT_BRAKE_RATE = PEDALING_RATE"
| "next_state PEDALING_RATE = SPEED_RATE"
| "next_state SPEED_RATE = NOTE"
| "next_state S = ConversationHandler_END"

fun prev_state :: "conv_state \<Rightarrow> conv_state" where
  "prev_state INVENTORY_TAG = SERIAL_ID"
| "prev_state LOCATION = INVENTORY_TAG"
| "prev_state PARKING_ANGEL = LOCATION"
| "prev_state TIRES_RATE = PARKING_ANGEL"
| "prev_state SEAT_HEIGHT = TIRES_RATE"
| "prev_state APPEARENCE_RATE = SEAT_HEIGHT"
| "prev_state BATTERY_LEVEL = APPEARENCE_RATE"
| "prev_state LEFT_BRAKE_RATE = BATTERY_LEVEL"
| "prev_state RIGHT_BRAKE_RATE = LEFT_BRAKE_RATE"
| "prev_state PEDALING_RATE = RIGHT_BRAKE_RATE"
| "prev_state SPEED_RATE = PEDALING_RATE"
| "prev_state NOTE = SPEED_RATE"
| "prev_state S = S"

text \<open>The fields of kind \<open>IntRange(lo,hi)\<close> with their bounds.\<close>

definition IntRange :: "string \<Rightarrow> (int \<times> int) option" where
  "IntRange F =
     (if F \<in> set [''Pedaling Rate'', ''Left Brake Rate'', ''Right Brake Rate'',
                   ''Tires Rate'', ''Appearence Rate'', ''Speed Rate''] then Some (0, 10)
      else if F = ''Battery Level'' then Some (0, 4)
      else if F = ''Seat Hight'' then Some (1, 10)
      else None)"

text \<open>
  The strings that the test of the numeric handlers lets through: a decimal string is a
  non-empty text of decimal digits, of whatever script, and \<open>IntRange_accepts lo hi\<close>
  holds for the decimal strings whose value lies within the bounds.
\<close>

definition decimal_string :: "string \<Rightarrow> bool" where
  "decimal_string s =
     (case code_points s of
        None \<Rightarrow> False
      | Some ns \<Rightarrow> ns \<noteq> [] \<and> list_all (\<lambda>n. decimal_digit n \<noteq> None) ns)"

definition string_value :: "string \<Rightarrow> int" where
  "string_value s = (case code_points s of None \<Rightarrow> 0 | Some ns \<Rightarrow> decimal_value ns)"

definition IntRange_accepts :: "int \<Rightarrow> int \<Rightarrow> string \<Rightarrow> bool" where
  "IntRange_accepts lo hi s = (decimal_string s \<and> lo \<le> string_value s \<and> string_value s \<le> hi)"

text \<open>
  A base-10 non-negative integer literal, as the specification has it: a non-empty string
  of the digits 0 to 9, with no sign, no decimal point, nothing else; and its value.
\<close>

definition integer_literal :: "string \<Rightarrow> bool" where
  "integer_literal s = (s \<noteq> [] \<and> list_all (\<lambda>c. c \<in> set ''0123456789'') s)"

definition literal_value :: "string \<Rightarrow> int" where
  "literal_value s = foldl (\<lambda>v c. 10 * v + (int (of_char c) - 48)) 0 s"

text \<open>
  The texts that are plainly no numbers: the empty text and every text with an ASCII
  character other than the digits 0 to 9, such as a sign, a decimal point, a letter or a
  blank.
\<close>

definition not_a_number :: "string \<Rightarrow> bool" where
  "not_a_number s \<longleftrightarrow>
     s = [] \<or> list_ex (\<lambda>c. of_char c < (0x80::nat) \<and> c \<notin> set ''0123456789'') s"

text \<open>The answer to a text that a field of kind \<open>IntRange\<close> does not accept.\<close>

definition range_complaint :: "string \<Rightarrow> string" where
  "range_complaint F =
     (if F = ''Battery Level'' then ''Select a valid battery level (0-4):''
      else if F = ''Seat Hight'' then ''Select a valid height (1-10):''
      else ''Select a valid rate (0-10):'')"

text \<open>
  The prompt of a step: the text and the keyboard with which the add flow enters it.
\<close>

fun step_prompt :: "conv_state \<Rightarrow> string \<times> markup" where
  "step_prompt SERIAL_ID = (''Enter Serial ID:'', get_serial_id_keyboard)"
| "step_prompt INVENTORY_TAG = (''Enter Inventory Tag:'', get_text_input_keyboard)"
| "step_prompt LOCATION = (''Location:'', get_location_keyboard)"
| "step_prompt PARKING_ANGEL = (''Is Straight Parking Angel? '', get_boolean_keyboard)"
| "step_prompt TIRES_RATE = (''Tires Rate (0-10):'', get_rate_keyboard)"
| "step_prompt SEAT_HEIGHT = (''Seat Hight (1-10):'', get_seat_height_keyboard)"
| "step_prompt APPEARENCE_RATE = (''Appearence Rate (0-10):'', get_rate_keyboard)"
| "step_prompt BATTERY_LEVEL = (''Battery Level (0-4):'', get_battery_keyboard)"
| "step_prompt LEFT_BRAKE_RATE = (''Left Brake Rate (0-10):'', get_rate_keyboard)"
| "step_prompt RIGHT_BRAKE_RATE = (''Right Brake Rate (0-10):'', get_rate_keyboard)"
| "step_prompt PEDALING_RATE = (''Pedaling Rate (0-10):'', get_rate_keyboard)"
| "step_prompt SPEED_RATE = (''Speed Rate (0-10):'', get_rate_keyboard)"
| "step_prompt NOTE = (''Any notes?'', get_note_keyboard)"
| "step_prompt S = ([], NoMarkup)"

text \<open>A session in which nothing has happened: no data, no file, no message sent.\<close>

definition fresh :: world where
  "fresh = \<lparr>user_data = cleared, csv_file = None, outbox = []\<rparr>"

text \<open>
  The remainder of a command line as it was typed: what follows the command and the one
  white space character after it.
\<close>

definition literal_remainder :: "string \<Rightarrow> string" where
  "literal_remainder text =
     concat (drop 1 (dropWhile (\<lambda>c. c \<notin> set whitespace) (characters text)))"

section \<open>Invariants of the flows\<close>

text \<open>
  The fields in the order in which the add flow enters them into the in-progress record:
  the order of the steps, then the timestamp.
\<close>

definition all_fields :: "string list" where
  "all_fields = map step_field add_steps @ [''Date'']"

fun step_index :: "conv_state \<Rightarrow> nat" where
  "step_index SERIAL_ID = 0"
| "step_index INVENTORY_TAG = 1"
| "step_index LOCATION = 2"
| "step_index PARKING_ANGEL = 3"
| "step_index TIRES_RATE = 4"
| "step_index SEAT_HEIGHT = 5"
| "step_index APPEARENCE_RATE = 6"
| "step_index BATTERY_LEVEL = 7"
| "step_index LEFT_BRAKE_RATE = 8"
| "step_index RIGHT_BRAKE_RATE = 9"
| "step_index PEDALING_RATE = 10"
| "step_index SPEED_RATE = 11"
| "step_index NOTE = 12"
| "step_index S = 0"

text \<open>
  The values that the handlers store under a field: the sentinel, any text as Serial ID,
  a free text that is no control token, a rendered location, a lower-case truth value, an
  accepted integer literal, a timestamp.
\<close>

inductive stored :: "string \<Rightarrow> string \<Rightarrow> bool" where
  stored_skip: "stored F ''N/A''"
| stored_serial: "stored ''Serial ID'' v"
| stored_text: "F = ''Inventory Tag'' \<or> F = ''Note'' \<Longrightarrow> v \<noteq> ''Skip'' \<Longrightarrow> v \<noteq> ''Back'' \<Longrightarrow> stored F v"
| stored_location: "stored ''Location'' (latitude @ '', '' @ longitude)"
| stored_parking: "v = ''true'' \<or> v = ''false'' \<Longrightarrow> stored ''Is Straight Parking Angel'' v"
| stored_rate: "IntRange F = Some (lo, hi) \<Longrightarrow> IntRange_accepts lo hi v \<Longrightarrow> stored F v"
| stored_date: "stored ''Date'' (strftime now)"

text \<open>
  With a property \<open>P\<close> of the values of the fields: the in-progress record holds the first
  fields of the flow in their order, at least those of the steps passed, and all its
  values have the property.
\<close>

definition record_ok_at :: "(string \<Rightarrow> string \<Rightarrow> bool) \<Rightarrow> nat \<Rightarrow> (string \<times> string) list \<Rightarrow> bool" where
  "record_ok_at P n rd \<longleftrightarrow>
     map fst rd = take (length rd) all_fields \<and> n \<le> length rd \<and> list_all (\<lambda>(k, v). P k v) rd"

definition rec_inv :: "(string \<Rightarrow> string \<Rightarrow> bool) \<Rightarrow> conv_state \<Rightarrow> world \<Rightarrow> bool" where
  "rec_inv P S w \<longleftrightarrow>
     S = ConversationHandler_END \<or>
     (case ud_research_data (user_data w) of
        None \<Rightarrow> False
      | Some rd \<Rightarrow> record_ok_at P (step_index S) rd)"

text \<open>
  The store with a property \<open>P\<close> of the cells: the file is absent, or it has the format of
  the store and every cell has the property under the name of its column.
\<close>

definition rows_ok :: "(string \<Rightarrow> string \<Rightarrow> bool) \<Rightarrow> table \<Rightarrow> bool" where
  "rows_ok P rows =
     list_all (\<lambda>r. length r = length CSV_COLUMNS \<and>
                    list_all (\<lambda>(c, v). P c v) (zip CSV_COLUMNS r)) rows"

definition store_ok :: "(string \<Rightarrow> string \<Rightarrow> bool) \<Rightarrow> table option \<Rightarrow> bool" where
  "store_ok P f =
     (case f of
        None \<Rightarrow> True
      | Some t \<Rightarrow> (case t of [] \<Rightarrow> False | h # rows \<Rightarrow> h = CSV_COLUMNS \<and> rows_ok P rows))"

text \<open>The columns that the update flow offers, and its invariant: a field that has been
  chosen is one of them.\<close>

definition update_columns :: "string list" where
  "update_columns = filter (\<lambda>col. col \<notin> set [''Serial ID'', ''Date'']) CSV_COLUMNS"

definition upd_inv :: "conv_state \<Rightarrow> world \<Rightarrow> bool" where
  "upd_inv S w \<longleftrightarrow>
     (S = UPDATE_VALUE \<longrightarrow>
        (case ud_update_field (user_data w) of
           None \<Rightarrow> True
         | Some F \<Rightarrow> F \<in> set update_columns))"

text \<open>
  The values that the validator of a field accepts, and the sentinel. A field of kind
  \<open>IntRange\<close> accepts the integer literals within its bounds, the field of kind
  \<open>Boolean\<close> the two truth values in any case of the letters, the field of kind
  \<open>GeoPoint\<close> is stored as a latitude and a longitude with a comma and a blank between
  them; the other fields have no validator.
\<close>

fun has_comma_blank :: "string \<Rightarrow> bool" where
  "has_comma_blank (a # b # cs) = ((a = CHR '','' \<and> b = CHR '' '') \<or> has_comma_blank (b # cs))"
| "has_comma_blank cs = False"

definition valid_value :: "string \<Rightarrow> string \<Rightarrow> bool" where
  "valid_value F v \<longleftrightarrow>
     v = ''N/A'' \<or>
     (case IntRange F of
        Some (lo, hi) \<Rightarrow> IntRange_accepts lo hi v
      | None \<Rightarrow>
          if F = ''Is Straight Parking Angel'' then lower v \<in> set [''true'', ''false'']
          else if F = ''Location'' then has_comma_blank v
          else True)"

text \<open>A cell that is no control token, the Serial ID apart.\<close>

definition no_token :: "string \<Rightarrow> string \<Rightarrow> bool" where
  "no_token F v \<longleftrightarrow> F = ''Serial ID'' \<or> (v \<noteq> ''Back'' \<and> v \<noteq> ''Skip'')"

text \<open>
  What a handler of the add flow that does not save leaves behind: the file as it was, and
  the record in order for the state in which the conversation goes on (the state returned,
  or the same state after an exception).
\<close>

definition after :: "conv_state \<Rightarrow> outcome \<Rightarrow> conv_state" where
  "after S r = (case fst r of Inl e \<Rightarrow> S | Inr S' \<Rightarrow> S')"


text \<open>The invariant of a conversation of the add flow.\<close>

definition add_inv :: "(string \<Rightarrow> string \<Rightarrow> bool) \<Rightarrow> bool \<Rightarrow> conv_state \<Rightarrow> world \<Rightarrow> bool" where
  "add_inv P with_store S w \<longleftrightarrow>
     rec_inv P S w \<and> (with_store \<longrightarrow> store_ok P (csv_file w))"


text \<open>The invariant of a conversation of the update flow.\<close>

definition upd_ok :: "(string \<Rightarrow> string \<Rightarrow> bool) \<Rightarrow> conv_state \<Rightarrow> world \<Rightarrow> bool" where
  "upd_ok P S w \<longleftrightarrow> store_ok P (csv_file w) \<and> upd_inv S w"

section \<open>Facts about dicts and the store\<close>

lemma dict_set_keys_present:
  "k \<in> fst ` set d \<Longrightarrow> map fst (dict_set d k v) = map fst d"
  by (induction d) force+

lemma dict_set_absent:
  "k \<notin> fst ` set d \<Longrightarrow> dict_set d k v = d @ [(k, v)]"
  by (induction d) auto


lemma fold_dict_set_fresh:
  "distinct (map fst kvs) \<Longrightarrow> fst ` set kvs \<inter> fst ` set d = {} \<Longrightarrow>
   fold (\<lambda>kv d. dict_set d (fst kv) (snd kv)) kvs d = d @ kvs"
proof (induction kvs arbitrary: d)
  case Nil
  then show ?case by simp
next
  case (Cons kv kvs)
  from Cons.prems have fresh: "fst kv \<notin> fst ` set d" by auto
  have step: "dict_set d (fst kv) (snd kv) = d @ [kv]"
    using dict_set_absent [OF fresh, of "snd kv"] by simp
  from Cons.prems have "distinct (map fst kvs)"
    and "fst ` set kvs \<inter> fst ` set (d @ [kv]) = {}" by auto
  then have "fold (\<lambda>kv d. dict_set d (fst kv) (snd kv)) kvs (d @ [kv]) = (d @ [kv]) @ kvs"
    by (rule Cons.IH)
  with step show ?case by simp
qed

lemma map_of_zip_all:
  "distinct ks \<Longrightarrow> length ks = length vs \<Longrightarrow> map (map_of (zip ks vs)) ks = map Some vs"
proof (induction ks vs rule: list_induct2')
  case (4 k ks v vs)
  then have "map (map_of (zip ks vs)) ks = map Some vs" by simp
  moreover have "map (\<lambda>x. if x = k then Some v else map_of (zip ks vs) x) ks
                 = map (map_of (zip ks vs)) ks"
    using 4 by (intro map_cong) auto
  ultimately show ?case by (simp add: fun_upd_def)
qed simp_all

lemma distinct_CSV_COLUMNS: "distinct CSV_COLUMNS"
  by (simp add: CSV_COLUMNS_def)

lemma length_CSV_COLUMNS: "length CSV_COLUMNS = 14"
  by (simp add: CSV_COLUMNS_def)

lemma row_dict_full:
  assumes "distinct h" and "length row = length h"
  shows "row_dict h row = \<lparr>items = zip h (map Some row), rest = None\<rparr>"
proof -
  have "distinct (map fst (zip h (map Some row)))"
    using assms by (simp add: map_fst_zip)
  then have "fold (\<lambda>kv d. dict_set d (fst kv) (snd kv)) (zip h (map Some row)) []
             = [] @ zip h (map Some row)"
    by (rule fold_dict_set_fresh) simp
  with assms show ?thesis by (simp add: row_dict_def)
qed

lemma dict_to_list_full:
  assumes "length row = length CSV_COLUMNS"
  shows "dict_to_list \<lparr>items = zip CSV_COLUMNS (map Some row), rest = None\<rparr> = Inr row"
proof -
  have keys: "map fst (zip CSV_COLUMNS (map Some row)) = CSV_COLUMNS"
    using assms by (simp add: map_fst_zip)
  let ?pick = "\<lambda>c. case c of Some (Some v) \<Rightarrow> v | _ \<Rightarrow> []"
  let ?m = "map_of (zip CSV_COLUMNS (map Some row))"
  have cells: "map ?m CSV_COLUMNS = map Some (map Some row)"
    using assms by (intro map_of_zip_all distinct_CSV_COLUMNS) simp
  have "map (\<lambda>k. ?pick (?m k)) CSV_COLUMNS = map ?pick (map ?m CSV_COLUMNS)"
    by (simp add: comp_def)
  also have "\<dots> = map ?pick (map Some (map Some row))"
    by (simp only: cells)
  also have "\<dots> = row" by (simp add: comp_def)
  finally show ?thesis
    by (simp add: dict_to_list_def keys list_all_iff)
qed

lemma writerows_full:
  "list_all (\<lambda>r. length r = length CSV_COLUMNS) rows \<Longrightarrow>
   writerows (map (row_dict CSV_COLUMNS) rows) = (None, rows)"
  by (induction rows)
     (simp_all add: row_dict_full distinct_CSV_COLUMNS dict_to_list_full)

lemma DictReader_store_format:
  "store_format t \<Longrightarrow> DictReader t = map (row_dict CSV_COLUMNS) (tl t)"
proof (cases t)
  case Nil
  then show "store_format t \<Longrightarrow> ?thesis" by (simp add: store_format_def)
next
  case (Cons h rows)
  assume "store_format t"
  with Cons have h: "h = CSV_COLUMNS"
    and len: "list_all (\<lambda>r. length r = length CSV_COLUMNS) rows"
    by (simp_all add: store_format_def)
  from len have "filter (\<lambda>r. r \<noteq> []) rows = rows"
    by (auto simp: list_all_iff length_CSV_COLUMNS intro!: filter_True)
  with Cons h show ?thesis by (simp add: DictReader_def)
qed

lemma write_read_store_format:
  "store_format t \<Longrightarrow> write_csv (fst (read_csv (Some t))) = (None, t)"
proof -
  assume sf: "store_format t"
  then obtain rows where t: "t = CSV_COLUMNS # rows"
    and len: "list_all (\<lambda>r. length r = length CSV_COLUMNS) rows"
    by (cases t) (simp_all add: store_format_def)
  have "fst (read_csv (Some t)) = map (row_dict CSV_COLUMNS) rows"
    using DictReader_store_format [OF sf] t by (simp add: read_csv_def initialize_csv_def)
  with len t show ?thesis by (simp add: write_csv_def writerows_full)
qed

lemma writerows_cells:
  "writerows data = (e, rows) \<Longrightarrow> list_all (\<lambda>r. length r = length CSV_COLUMNS) rows"
proof (induction data arbitrary: e rows)
  case Nil
  then show ?case by simp
next
  case (Cons r rs)
  show ?case
  proof (cases "dict_to_list r")
    case (Inl err)
    with Cons.prems show ?thesis by simp
  next
    case (Inr cells)
    obtain e' t' where w: "writerows rs = (e', t')" by (cases "writerows rs")
    from Inr have "length cells = length CSV_COLUMNS"
      by (auto simp: dict_to_list_def split: if_splits)
    moreover from Cons.IH [OF w] have "list_all (\<lambda>r. length r = length CSV_COLUMNS) t'" .
    ultimately show ?thesis using Cons.prems Inr w by auto
  qed
qed

lemma write_csv_store_format: "store_format (snd (write_csv data))"
proof -
  obtain e rows where w: "writerows data = (e, rows)" by (cases "writerows data")
  from writerows_cells [OF w] w show ?thesis
    by (simp add: write_csv_def store_format_def)
qed

lemma initialize_csv_store_format: "store_format (initialize_csv None)"
  by (simp add: initialize_csv_def store_format_def)

section \<open>Reading and writing back\<close>

text \<open>
  C6. Reading all records and writing them back at once leaves the backing table as it
  is. The contents of the store are the tables in the format of the store (the header
  is the list of columns, every row has one cell for each column): the file that
  \<open>initialize_csv\<close> creates has this format, and so has every file that \<open>write_csv\<close>
  leaves, also when it raises. For each such table \<open>read_csv\<close> leaves the file alone
  and \<open>write_csv\<close> of the rows read returns without an exception and writes the same
  table; when the file is absent, the pair creates the empty store that \<open>read_csv\<close>
  alone creates.
\<close>

theorem save_load_roundtrip:
  "(store_format t \<longrightarrow>
      snd (read_csv (Some t)) = Some t \<and> write_csv (fst (read_csv (Some t))) = (None, t))
   \<and> store_format (snd (write_csv data))
   \<and> store_format (initialize_csv None)
   \<and> write_csv (fst (read_csv None)) = (None, initialize_csv None)"
proof -
  have "snd (read_csv (Some t)) = Some t"
    by (simp add: read_csv_def initialize_csv_def)
  moreover have "fst (read_csv None) = fst (read_csv (Some (initialize_csv None)))"
    by (simp add: read_csv_def initialize_csv_def)
  ultimately show ?thesis
    using write_read_store_format [of t]
      write_read_store_format [OF initialize_csv_store_format]
    by (simp add: write_csv_store_format initialize_csv_store_format)
qed

theorem save_load_roundtrip_witness:
  "store_format [CSV_COLUMNS, ''BK-001'' # replicate 12 ''N/A'' @ [''2026-11-03 09:05:00'']]
   \<and> write_csv (fst (read_csv
        (Some [CSV_COLUMNS, ''BK-001'' # replicate 12 ''N/A'' @ [''2026-11-03 09:05:00'']])))
     = (None, [CSV_COLUMNS, ''BK-001'' # replicate 12 ''N/A'' @ [''2026-11-03 09:05:00'']])"
  using save_load_roundtrip
    [of "[CSV_COLUMNS, ''BK-001'' # replicate 12 ''N/A'' @ [''2026-11-03 09:05:00'']]" "[]"]
  by (simp add: store_format_def CSV_COLUMNS_def)

section \<open>The numeric validator\<close>

lemma ascii_characters:
  "list_all (\<lambda>c. of_char c < (0x80::nat)) s \<Longrightarrow> characters s = map (\<lambda>c. [c]) s"
  by (induction s) (simp_all add: width_def)

lemma ascii_those:
  "list_all (\<lambda>c. of_char c < (0x80::nat)) s \<Longrightarrow>
     those (map code_point (map (\<lambda>c. [c]) s)) = Some (map of_char s)"
  by (induction s) simp_all

lemma ascii_code_points:
  "list_all (\<lambda>c. of_char c < (0x80::nat)) s \<Longrightarrow> code_points s = Some (map of_char s)"
  by (simp only: code_points_def ascii_characters ascii_those)

lemma decimal_digit_ascii:
  "48 \<le> n \<Longrightarrow> n < 58 \<Longrightarrow> decimal_digit n = Some (n - 48)"
  by (simp add: decimal_digit_def decimal_zeros_def)

lemma digit_bounds:
  "c \<in> set ''0123456789'' \<Longrightarrow> 48 \<le> (of_char c :: nat) \<and> (of_char c :: nat) < 58"
  by auto

lemma digit_is_ascii:
  assumes "c \<in> set ''0123456789''"
  shows "of_char c < (0x80::nat)"
    and "decimal_digit (of_char c) = Some (of_char c - 48)"
    and "digit_value (of_char c) = int (of_char c) - 48"
proof -
  from digit_bounds [OF assms]
  have b: "48 \<le> (of_char c :: nat)" "(of_char c :: nat) < 58" by simp_all
  then show "of_char c < (0x80::nat)" by simp
  from decimal_digit_ascii [OF b] show d: "decimal_digit (of_char c) = Some (of_char c - 48)" .
  from b show "digit_value (of_char c) = int (of_char c) - 48"
    by (simp add: digit_value_def d)
qed

lemma literal_code_points:
  assumes "integer_literal t"
  shows "code_points t = Some (map of_char t)"
proof -
  from assms have "list_all (\<lambda>c. of_char c < (0x80::nat)) t"
    using digit_is_ascii(1) by (simp add: integer_literal_def list_all_iff del: set_simps)
  then show ?thesis by (rule ascii_code_points)
qed

lemma literal_fold:
  "list_all (\<lambda>c. c \<in> set ''0123456789'') t \<Longrightarrow>
     foldl (\<lambda>v n. 10 * v + digit_value n) a (map of_char t)
       = foldl (\<lambda>v c. 10 * v + (int (of_char c) - 48)) a t"
  using digit_is_ascii(3)
  by (induction t arbitrary: a) (simp_all del: set_simps)

lemma literal_decimal:
  assumes "integer_literal t"
  shows "decimal_string t" and "string_value t = literal_value t"
proof -
  from assms have digits: "list_all (\<lambda>c. c \<in> set ''0123456789'') t" and "t \<noteq> []"
    by (simp_all add: integer_literal_def)
  with digit_is_ascii(2) show "decimal_string t"
    by (simp add: decimal_string_def literal_code_points [OF assms] list_all_iff
        del: set_simps)
  from literal_fold [OF digits] show "string_value t = literal_value t"
    by (simp add: string_value_def literal_code_points [OF assms] decimal_value_def
        literal_value_def)
qed

lemma code_point_ascii:
  assumes "code_point ch = Some n" and "c \<in> set ch" and "of_char c < (0x80::nat)"
  shows "n = of_char c"
  using assms
  by (cases ch rule: code_point.cases)
     (auto simp add: continuation_def split: if_splits)

lemma code_points_ascii_mem:
  "code_points s = Some ns \<Longrightarrow> c \<in> set s \<Longrightarrow> of_char c < (0x80::nat) \<Longrightarrow> of_char c \<in> set ns"
proof (induction s arbitrary: ns rule: characters.induct)
  case 1
  then show ?case by simp
next
  case (2 a cs)
  let ?k = "width a - 1"
  from "2.prems"(1) obtain n ms where n: "code_point (a # take ?k cs) = Some n"
    and ms: "code_points (drop ?k cs) = Some ms" and ns: "ns = n # ms"
    by (auto simp add: code_points_def split: option.splits)
  from "2.prems"(2) have "c \<in> set (a # take ?k cs) \<or> c \<in> set (drop ?k cs)"
    using set_append [of "take ?k cs" "drop ?k cs"] by auto
  then show ?case
  proof
    assume "c \<in> set (a # take ?k cs)"
    from code_point_ascii [OF n this "2.prems"(3)] ns show ?thesis by simp
  next
    assume "c \<in> set (drop ?k cs)"
    from "2.IH" [OF ms this "2.prems"(3)] ns show ?thesis by simp
  qed
qed

lemma ascii_digit_char:
  assumes "n < 0x80" and "digit_char n"
  shows "48 \<le> n \<and> n < 58"
  using assms
  by (simp add: digit_char_def decimal_digit_def decimal_zeros_def other_digits_def
      split: if_splits)

lemma of_char_same: "of_char c = (n::nat) \<Longrightarrow> of_char d = n \<Longrightarrow> c = d"
  using of_char_eq_iff [of c d, where ?'a = nat] by simp

lemma ten_cases:
  "48 \<le> (n::nat) \<Longrightarrow> n < 58 \<Longrightarrow>
     n = 48 \<or> n = 49 \<or> n = 50 \<or> n = 51 \<or> n = 52 \<or> n = 53 \<or> n = 54 \<or> n = 55 \<or> n = 56 \<or> n = 57"
  by arith

lemma digit_of_char:
  assumes "48 \<le> (of_char c :: nat)" and "(of_char c :: nat) < 58"
  shows "c \<in> set ''0123456789''"
  using ten_cases [OF assms]
proof (elim disjE)
  assume "of_char c = (48::nat)"
  then have "c = CHR ''0''" by (rule of_char_same) simp
  then show ?thesis by simp
next
  assume "of_char c = (49::nat)"
  then have "c = CHR ''1''" by (rule of_char_same) simp
  then show ?thesis by simp
next
  assume "of_char c = (50::nat)"
  then have "c = CHR ''2''" by (rule of_char_same) simp
  then show ?thesis by simp
next
  assume "of_char c = (51::nat)"
  then have "c = CHR ''3''" by (rule of_char_same) simp
  then show ?thesis by simp
next
  assume "of_char c = (52::nat)"
  then have "c = CHR ''4''" by (rule of_char_same) simp
  then show ?thesis by simp
next
  assume "of_char c = (53::nat)"
  then have "c = CHR ''5''" by (rule of_char_same) simp
  then show ?thesis by simp
next
  assume "of_char c = (54::nat)"
  then have "c = CHR ''6''" by (rule of_char_same) simp
  then show ?thesis by simp
next
  assume "of_char c = (55::nat)"
  then have "c = CHR ''7''" by (rule of_char_same) simp
  then show ?thesis by simp
next
  assume "of_char c = (56::nat)"
  then have "c = CHR ''8''" by (rule of_char_same) simp
  then show ?thesis by simp
next
  assume "of_char c = (57::nat)"
  then have "c = CHR ''9''" by (rule of_char_same) simp
  then show ?thesis by simp
qed

lemma not_a_number_isdigit:
  assumes "not_a_number t"
  shows "\<not> isdigit t"
proof
  assume d: "isdigit t"
  then obtain ns where ns: "code_points t = Some ns" and ne: "ns \<noteq> []"
    and all: "list_all digit_char ns"
    by (auto simp add: isdigit_def split: option.splits)
  from ns ne have "t \<noteq> []" by (auto simp add: code_points_def)
  with assms have "list_ex (\<lambda>c. of_char c < (0x80::nat) \<and> c \<notin> set ''0123456789'') t"
    by (simp only: not_a_number_def) blast
  then obtain c where c: "c \<in> set t" "of_char c < (0x80::nat)"
    and nd: "c \<notin> set ''0123456789''"
    unfolding list_ex_iff by blast
  from code_points_ascii_mem [OF ns c] all have "digit_char (of_char c)"
    by (simp add: list_all_iff)
  from ascii_digit_char [OF c(2) this] have "c \<in> set ''0123456789''"
    by (intro digit_of_char) simp_all
  with nd show False by contradiction
qed

lemma int_str_eq:
  "int_str t = (if decimal_string t then Inr (string_value t) else Inl ValueError)"
  by (simp add: int_str_def decimal_string_def string_value_def split: option.split)

lemma decimal_string_isdigit: "decimal_string t \<Longrightarrow> isdigit t"
  by (auto simp add: decimal_string_def isdigit_def digit_char_def list_all_iff
      split: option.splits)

lemma out_of_range_cases:
  "out_of_range t lo hi =
     (if IntRange_accepts lo hi t then Inr False
      else if isdigit t \<and> \<not> decimal_string t then Inl ValueError
      else Inr True)"
proof (cases "decimal_string t")
  case True
  then have "isdigit t" by (rule decimal_string_isdigit)
  with True show ?thesis
    by (auto simp add: out_of_range_def int_str_eq IntRange_accepts_def)
next
  case False
  then show ?thesis
    by (simp add: out_of_range_def int_str_eq IntRange_accepts_def)
qed

lemma rate_step_text:
  assumes "t \<noteq> ''Skip''" and "t \<noteq> ''Back''"
    and "ud_research_data (user_data w) = Some rd"
  shows "rate_step F lo hi complaint here back bp nxt np t w =
     (if IntRange_accepts lo hi t then
        (Inr nxt, reply_text (fst np) (snd np) (set_research_data (dict_set rd F t) w))
      else if isdigit t \<and> \<not> decimal_string t then (Inl ValueError, w)
      else (Inr here, reply_text complaint NoMarkup w))"
  using assms
  by (simp add: rate_step_def out_of_range_cases proceed_def store_field_def)

lemma update_rate_text:
  "update_rate (Some t) lo hi complaint w =
     (if IntRange_accepts lo hi t then write_value (Some t) w
      else if isdigit t \<and> \<not> decimal_string t then (Inl ValueError, w)
      else (Inr UPDATE_VALUE, reply_text complaint NoMarkup w))"
  by (simp add: update_rate_def out_of_range_cases)

lemma IntRange_eq:
  "IntRange F =
     (if F \<in> set rate_fields then Some (0, 10)
      else if F = ''Battery Level'' then Some (0, 4)
      else if F = ''Seat Hight'' then Some (1, 10)
      else None)"
  unfolding IntRange_def rate_fields_def ..

lemma IntRange_cases:
  assumes "IntRange F = Some (lo, hi)"
  obtains "F \<in> set rate_fields" and "lo = 0" and "hi = 10"
  | "F \<notin> set rate_fields" and "F = ''Battery Level''" and "lo = 0" and "hi = 4"
  | "F \<notin> set rate_fields" and "F \<noteq> ''Battery Level''" and "F = ''Seat Hight''"
      and "lo = 1" and "hi = 10"
proof (cases "F \<in> set rate_fields")
  case True
  with assms have "lo = 0 \<and> hi = 10" by (simp add: IntRange_eq del: set_simps)
  with True that(1) show ?thesis by blast
next
  case nr: False
  show ?thesis
  proof (cases "F = ''Battery Level''")
    case True
    with nr assms have "lo = 0 \<and> hi = 4" by (simp add: IntRange_eq del: set_simps)
    with nr True that(2) show ?thesis by blast
  next
    case nb: False
    show ?thesis
    proof (cases "F = ''Seat Hight''")
      case True
      with nr nb assms have "lo = 1 \<and> hi = 10" by (simp add: IntRange_eq del: set_simps)
      with nr nb True that(3) show ?thesis by blast
    next
      case False
      with nr nb assms show ?thesis by (simp add: IntRange_eq del: set_simps)
    qed
  qed
qed

lemma add_handler_int_step:
  assumes range: "IntRange (step_field S) = Some (lo, hi)"
    and t: "t \<noteq> ''Skip''" "t \<noteq> ''Back''"
    and rd: "ud_research_data (user_data w) = Some rd"
  shows "add_handler now S (Text t) w =
     (if IntRange_accepts lo hi t then
        (Inr (next_state S),
         reply_text (fst (step_prompt (next_state S))) (snd (step_prompt (next_state S)))
           (set_research_data (dict_set rd (step_field S) t) w))
      else if isdigit t \<and> \<not> decimal_string t then (Inl ValueError, w)
      else (Inr S, reply_text (range_complaint (step_field S)) NoMarkup w))"
proof (cases S)
  case TIRES_RATE
  with range have "lo = 0" "hi = 10" by (simp_all add: IntRange_def)
  with TIRES_RATE show ?thesis
    using rate_step_text [OF t rd] by (simp add: add_tires_rate_def range_complaint_def)
next
  case SEAT_HEIGHT
  with range have "lo = 1" "hi = 10" by (simp_all add: IntRange_def)
  with SEAT_HEIGHT show ?thesis
    using rate_step_text [OF t rd] by (simp add: add_seat_height_def range_complaint_def)
next
  case APPEARENCE_RATE
  with range have "lo = 0" "hi = 10" by (simp_all add: IntRange_def)
  with APPEARENCE_RATE show ?thesis
    using rate_step_text [OF t rd] by (simp add: add_appearence_rate_def range_complaint_def)
next
  case BATTERY_LEVEL
  with range have "lo = 0" "hi = 4" by (simp_all add: IntRange_def)
  with BATTERY_LEVEL show ?thesis
    using rate_step_text [OF t rd] by (simp add: add_battery_level_def range_complaint_def)
next
  case LEFT_BRAKE_RATE
  with range have "lo = 0" "hi = 10" by (simp_all add: IntRange_def)
  with LEFT_BRAKE_RATE show ?thesis
    using rate_step_text [OF t rd] by (simp add: add_left_brake_rate_def range_complaint_def)
next
  case RIGHT_BRAKE_RATE
  with range have "lo = 0" "hi = 10" by (simp_all add: IntRange_def)
  with RIGHT_BRAKE_RATE show ?thesis
    using rate_step_text [OF t rd] by (simp add: add_right_brake_rate_def range_complaint_def)
next
  case PEDALING_RATE
  with range have "lo = 0" "hi = 10" by (simp_all add: IntRange_def)
  with PEDALING_RATE show ?thesis
    using rate_step_text [OF t rd] by (simp add: add_pedaling_rate_def range_complaint_def)
next
  case SPEED_RATE
  with range have "lo = 0" "hi = 10" by (simp_all add: IntRange_def)
  with SPEED_RATE show ?thesis
    using rate_step_text [OF t rd] by (simp add: add_speed_rate_def range_complaint_def)
qed (use range in \<open>simp_all add: IntRange_def\<close>)

lemma rate_fields_others:
  assumes "F \<in> set rate_fields"
  shows "F \<noteq> ''Location''" and "F \<noteq> ''Note''" and "F \<noteq> ''Inventory Tag''"
  using assms unfolding rate_fields_def by auto

lemma rate_fields_kinds:
  assumes "F \<in> set rate_fields"
  shows "F \<noteq> ''Battery Level''" and "F \<noteq> ''Seat Hight''"
  using assms unfolding rate_fields_def by auto

lemma update_value_int_field:
  assumes range: "IntRange F = Some (lo, hi)"
    and t: "t \<noteq> ''Skip''" "t \<noteq> ''Back''"
    and f: "ud_update_field (user_data w) = Some F"
  shows "update_value (Text t) w =
     (if IntRange_accepts lo hi t then write_value (Some t) w
      else if isdigit t \<and> \<not> decimal_string t then (Inl ValueError, w)
      else (Inr UPDATE_VALUE, reply_text (range_complaint F) NoMarkup w))"
  using range
proof (cases rule: IntRange_cases)
  case 1
  from rate_fields_others [OF 1(1)] rate_fields_kinds [OF 1(1)]
  have c: "range_complaint F = ''Select a valid rate (0-10):''"
    by (simp add: range_complaint_def)
  from rate_fields_others [OF 1(1)] 1 t f
  have "update_value (Text t) w = update_rate (Some t) 0 10 ''Select a valid rate (0-10):'' w"
    by (simp add: update_value_def)
  with 1 c show ?thesis by (simp only: update_rate_text)
next
  case 2
  with t f
  have "update_value (Text t) w =
        update_rate (Some t) 0 4 ''Select a valid battery level (0-4):'' w"
    by (simp add: update_value_def)
  with 2 show ?thesis by (simp only: update_rate_text) (simp add: range_complaint_def)
next
  case 3
  with t f
  have "update_value (Text t) w = update_rate (Some t) 1 10 ''Select a valid height (1-10):'' w"
    by (simp add: update_value_def)
  with 3 show ?thesis by (simp only: update_rate_text) (simp add: range_complaint_def)
qed

lemma out_of_range_rejects:
  "out_of_range t lo hi = Inr True \<longleftrightarrow>
     \<not> IntRange_accepts lo hi t \<and> \<not> (isdigit t \<and> \<not> decimal_string t)"
  by (simp add: out_of_range_cases)

lemma out_of_range_literal:
  assumes "integer_literal t"
  shows "IntRange_accepts lo hi t \<longleftrightarrow> lo \<le> literal_value t \<and> literal_value t \<le> hi"
    and "out_of_range t lo hi = Inr (\<not> (lo \<le> literal_value t \<and> literal_value t \<le> hi))"
  using literal_decimal [OF assms]
  by (simp_all add: out_of_range_cases IntRange_accepts_def)

lemma out_of_range_not_a_number:
  assumes "not_a_number t"
  shows "out_of_range t lo hi = Inr True"
  using not_a_number_isdigit [OF assms] by (simp add: out_of_range_def)

lemma superscript_two_raises:
  "isdigit [CHR 0xC2, CHR 0xB2] \<and> int_str [CHR 0xC2, CHR 0xB2] = Inl ValueError
   \<and> add_handler \<lparr>year = 2026, month = 11, day = 3, hour = 9, minute = 5, second = 0\<rparr>
        TIRES_RATE (Text [CHR 0xC2, CHR 0xB2])
        \<lparr>user_data = cleared\<lparr>ud_research_data := Some [(''Serial ID'', ''BK-001'')]\<rparr>,
         csv_file = None, outbox = []\<rparr>
      = (Inl ValueError,
         \<lparr>user_data = cleared\<lparr>ud_research_data := Some [(''Serial ID'', ''BK-001'')]\<rparr>,
          csv_file = None, outbox = []\<rparr>)"
  by (simp add: add_tires_rate_def rate_step_def out_of_range_def isdigit_def int_str_def
      code_points_def width_def continuation_def scalar_def digit_char_def decimal_digit_def
      decimal_zeros_def other_digits_def)

text \<open>
  C3. For every field of kind \<open>IntRange(lo,hi)\<close> the test of the handlers accepts exactly
  the decimal strings whose value lies in \<open>[lo,hi]\<close>: the non-empty texts of decimal
  digits, be they the digits 0 to 9 or the decimal digits of another script. Among the
  strings of the digits 0 to 9 these are the integer literals with a value in \<open>[lo,hi]\<close>,
  and every other such literal is rejected; so is every text that is empty or has an
  ASCII character other than a digit (a sign, a decimal point, a letter), and every other
  text except the texts of characters with a digit value of which one is no decimal
  digit. In the add flow an accepted text is stored under the field as it was typed and
  the conversation goes on with the prompt of the next step, and a rejected text is
  answered with the message naming the range, in the same state and with nothing stored;
  in the update flow an accepted text goes on to the write of the value, and a rejected
  text is answered with the message naming the range, in the same state.
\<close>

theorem int_range_validator:
  assumes range: "IntRange F = Some (lo, hi)"
    and t: "t \<noteq> ''Skip''" "t \<noteq> ''Back''"
  shows
    "(out_of_range t lo hi = Inr False \<longleftrightarrow> IntRange_accepts lo hi t)
   \<and> (out_of_range t lo hi = Inr True \<longleftrightarrow>
        \<not> IntRange_accepts lo hi t \<and> \<not> (isdigit t \<and> \<not> decimal_string t))
   \<and> (integer_literal t \<longrightarrow>
        (IntRange_accepts lo hi t \<longleftrightarrow> lo \<le> literal_value t \<and> literal_value t \<le> hi)
        \<and> out_of_range t lo hi = Inr (\<not> (lo \<le> literal_value t \<and> literal_value t \<le> hi)))
   \<and> (not_a_number t \<longrightarrow> out_of_range t lo hi = Inr True)
   \<and> (step_field S = F \<and> ud_research_data (user_data w) = Some rd \<longrightarrow>
        (out_of_range t lo hi = Inr False \<longrightarrow>
           add_handler now S (Text t) w =
             (Inr (next_state S),
              reply_text (fst (step_prompt (next_state S))) (snd (step_prompt (next_state S)))
                (set_research_data (dict_set rd F t) w)))
        \<and> (out_of_range t lo hi = Inr True \<longrightarrow>
             add_handler now S (Text t) w
               = (Inr S, reply_text (range_complaint F) NoMarkup w)))
   \<and> (ud_update_field (user_data w) = Some F \<longrightarrow>
        (out_of_range t lo hi = Inr False \<longrightarrow>
           update_value (Text t) w = write_value (Some t) w)
        \<and> (out_of_range t lo hi = Inr True \<longrightarrow>
             update_value (Text t) w
               = (Inr UPDATE_VALUE, reply_text (range_complaint F) NoMarkup w)))"
proof (intro conjI impI)
  show "out_of_range t lo hi = Inr False \<longleftrightarrow> IntRange_accepts lo hi t"
    by (auto simp add: out_of_range_cases)
  show "out_of_range t lo hi = Inr True \<longleftrightarrow>
        \<not> IntRange_accepts lo hi t \<and> \<not> (isdigit t \<and> \<not> decimal_string t)"
    by (rule out_of_range_rejects)
next
  assume "integer_literal t"
  then show "IntRange_accepts lo hi t \<longleftrightarrow> lo \<le> literal_value t \<and> literal_value t \<le> hi"
    and "out_of_range t lo hi = Inr (\<not> (lo \<le> literal_value t \<and> literal_value t \<le> hi))"
    by (rule out_of_range_literal)+
next
  assume "not_a_number t"
  then show "out_of_range t lo hi = Inr True" by (rule out_of_range_not_a_number)
next
  assume a: "step_field S = F \<and> ud_research_data (user_data w) = Some rd"
  then have rd: "ud_research_data (user_data w) = Some rd" by simp
  from range a have r: "IntRange (step_field S) = Some (lo, hi)" by simp
  note step = add_handler_int_step [OF r t rd, of now]
  {
    assume "out_of_range t lo hi = Inr False"
    then have "IntRange_accepts lo hi t"
      by (auto simp add: out_of_range_cases split: if_splits)
    with step a show "add_handler now S (Text t) w =
             (Inr (next_state S),
              reply_text (fst (step_prompt (next_state S))) (snd (step_prompt (next_state S)))
                (set_research_data (dict_set rd F t) w))"
      by simp
  }
  {
    assume "out_of_range t lo hi = Inr True"
    then have "\<not> IntRange_accepts lo hi t" "\<not> (isdigit t \<and> \<not> decimal_string t)"
      by (simp_all add: out_of_range_rejects)
    with step a show "add_handler now S (Text t) w
               = (Inr S, reply_text (range_complaint F) NoMarkup w)"
      by simp
  }
next
  assume f: "ud_update_field (user_data w) = Some F"
  note step = update_value_int_field [OF range t f]
  {
    assume "out_of_range t lo hi = Inr False"
    then have "IntRange_accepts lo hi t"
      by (auto simp add: out_of_range_cases split: if_splits)
    with step show "update_value (Text t) w = write_value (Some t) w" by simp
  }
  {
    assume "out_of_range t lo hi = Inr True"
    then have "\<not> IntRange_accepts lo hi t" "\<not> (isdigit t \<and> \<not> decimal_string t)"
      by (simp_all add: out_of_range_rejects)
    with step show "update_value (Text t) w
               = (Inr UPDATE_VALUE, reply_text (range_complaint F) NoMarkup w)"
      by simp
  }
qed
theorem int_range_validator_witness:
  "IntRange ''Battery Level'' = Some (0, 4) \<and> ''4'' \<noteq> ''Skip'' \<and> ''4'' \<noteq> ''Back''
   \<and> ''5'' \<noteq> ''Skip'' \<and> ''5'' \<noteq> ''Back'' \<and> ''-1'' \<noteq> ''Skip'' \<and> ''-1'' \<noteq> ''Back''
   \<and> ''4.0'' \<noteq> ''Skip'' \<and> ''4.0'' \<noteq> ''Back''
   \<and> integer_literal ''4'' \<and> integer_literal ''5''
   \<and> not_a_number ''-1'' \<and> not_a_number ''4.0''
   \<and> step_field BATTERY_LEVEL = ''Battery Level''
   \<and> ud_research_data (user_data
        \<lparr>user_data = cleared\<lparr>ud_research_data := Some [(''Serial ID'', ''BK-001'')],
           ud_update_field := Some ''Battery Level''\<rparr>, csv_file = None, outbox = []\<rparr>)
       = Some [(''Serial ID'', ''BK-001'')]
   \<and> ud_update_field (user_data
        \<lparr>user_data = cleared\<lparr>ud_research_data := Some [(''Serial ID'', ''BK-001'')],
           ud_update_field := Some ''Battery Level''\<rparr>, csv_file = None, outbox = []\<rparr>)
       = Some ''Battery Level''
   \<and> out_of_range ''4'' 0 4 = Inr False
   \<and> out_of_range ''5'' 0 4 = Inr True
   \<and> out_of_range ''-1'' 0 4 = Inr True
   \<and> out_of_range ''4.0'' 0 4 = Inr True
   \<and> add_handler \<lparr>year = 2026, month = 11, day = 3, hour = 9, minute = 5, second = 0\<rparr>
        BATTERY_LEVEL (Text ''4'')
        \<lparr>user_data = cleared\<lparr>ud_research_data := Some [(''Serial ID'', ''BK-001'')],
           ud_update_field := Some ''Battery Level''\<rparr>, csv_file = None, outbox = []\<rparr>
      = (Inr LEFT_BRAKE_RATE,
         \<lparr>user_data = cleared\<lparr>ud_research_data :=
              Some [(''Serial ID'', ''BK-001''), (''Battery Level'', ''4'')],
            ud_update_field := Some ''Battery Level''\<rparr>,
          csv_file = None, outbox = [(''Left Brake Rate (0-10):'', get_rate_keyboard)]\<rparr>)
   \<and> add_handler \<lparr>year = 2026, month = 11, day = 3, hour = 9, minute = 5, second = 0\<rparr>
        BATTERY_LEVEL (Text ''5'')
        \<lparr>user_data = cleared\<lparr>ud_research_data := Some [(''Serial ID'', ''BK-001'')],
           ud_update_field := Some ''Battery Level''\<rparr>, csv_file = None, outbox = []\<rparr>
      = (Inr BATTERY_LEVEL,
         \<lparr>user_data = cleared\<lparr>ud_research_data := Some [(''Serial ID'', ''BK-001'')],
            ud_update_field := Some ''Battery Level''\<rparr>,
          csv_file = None,
          outbox = [(''Select a valid battery level (0-4):'', NoMarkup)]\<rparr>)
   \<and> update_value (Text ''-1'')
        \<lparr>user_data = cleared\<lparr>ud_research_data := Some [(''Serial ID'', ''BK-001'')],
           ud_update_field := Some ''Battery Level''\<rparr>, csv_file = None, outbox = []\<rparr>
      = (Inr UPDATE_VALUE,
         \<lparr>user_data = cleared\<lparr>ud_research_data := Some [(''Serial ID'', ''BK-001'')],
            ud_update_field := Some ''Battery Level''\<rparr>,
          csv_file = None,
          outbox = [(''Select a valid battery level (0-4):'', NoMarkup)]\<rparr>)
   \<and> update_value (Text ''4.0'')
        \<lparr>user_data = cleared\<lparr>ud_research_data := Some [(''Serial ID'', ''BK-001'')],
           ud_update_field := Some ''Battery Level''\<rparr>, csv_file = None, outbox = []\<rparr>
      = (Inr UPDATE_VALUE,
         \<lparr>user_data = cleared\<lparr>ud_research_data := Some [(''Serial ID'', ''BK-001'')],
            ud_update_field := Some ''Battery Level''\<rparr>,
          csv_file = None,
          outbox = [(''Select a valid battery level (0-4):'', NoMarkup)]\<rparr>)"
proof -
  let ?now = "\<lparr>year = 2026, month = 11, day = 3, hour = 9, minute = 5, second = 0\<rparr>"
  let ?w = "\<lparr>user_data = cleared\<lparr>ud_research_data := Some [(''Serial ID'', ''BK-001'')],
           ud_update_field := Some ''Battery Level''\<rparr>, csv_file = None, outbox = []\<rparr>"
  let ?rd = "[(''Serial ID'', ''BK-001'')]"
  note defs = IntRange_def integer_literal_def literal_value_def not_a_number_def
    range_complaint_def reply_text_def set_research_data_def cleared_def
  have four: "out_of_range ''4'' 0 4 = Inr False
      \<and> add_handler ?now BATTERY_LEVEL (Text ''4'') ?w
        = (Inr LEFT_BRAKE_RATE,
           \<lparr>user_data = cleared\<lparr>ud_research_data :=
              Some [(''Serial ID'', ''BK-001''), (''Battery Level'', ''4'')],
              ud_update_field := Some ''Battery Level''\<rparr>,
            csv_file = None, outbox = [(''Left Brake Rate (0-10):'', get_rate_keyboard)]\<rparr>)"
    using int_range_validator [of "''Battery Level''" 0 4 "''4''" BATTERY_LEVEL ?w ?rd ?now]
    by (simp add: defs)
  have five: "out_of_range ''5'' 0 4 = Inr True
      \<and> add_handler ?now BATTERY_LEVEL (Text ''5'') ?w
        = (Inr BATTERY_LEVEL,
           \<lparr>user_data = cleared\<lparr>ud_research_data := Some [(''Serial ID'', ''BK-001'')],
              ud_update_field := Some ''Battery Level''\<rparr>,
            csv_file = None,
            outbox = [(''Select a valid battery level (0-4):'', NoMarkup)]\<rparr>)"
    using int_range_validator [of "''Battery Level''" 0 4 "''5''" BATTERY_LEVEL ?w ?rd ?now]
    by (simp add: defs)
  have minus: "out_of_range ''-1'' 0 4 = Inr True
      \<and> update_value (Text ''-1'') ?w
        = (Inr UPDATE_VALUE,
           \<lparr>user_data = cleared\<lparr>ud_research_data := Some [(''Serial ID'', ''BK-001'')],
              ud_update_field := Some ''Battery Level''\<rparr>,
            csv_file = None,
            outbox = [(''Select a valid battery level (0-4):'', NoMarkup)]\<rparr>)"
    using int_range_validator [of "''Battery Level''" 0 4 "''-1''" BATTERY_LEVEL ?w ?rd ?now]
    by (simp add: defs)
  have point: "out_of_range ''4.0'' 0 4 = Inr True
      \<and> update_value (Text ''4.0'') ?w
        = (Inr UPDATE_VALUE,
           \<lparr>user_data = cleared\<lparr>ud_research_data := Some [(''Serial ID'', ''BK-001'')],
              ud_update_field := Some ''Battery Level''\<rparr>,
            csv_file = None,
            outbox = [(''Select a valid battery level (0-4):'', NoMarkup)]\<rparr>)"
    using int_range_validator [of "''Battery Level''" 0 4 "''4.0''" BATTERY_LEVEL ?w ?rd ?now]
    by (simp add: defs)
  have hyps: "IntRange ''Battery Level'' = Some (0, 4) \<and> integer_literal ''4''
      \<and> integer_literal ''5'' \<and> not_a_number ''-1'' \<and> not_a_number ''4.0''"
    by (simp add: defs)
  from four five minus point hyps show ?thesis by simp
qed

theorem arabic_digit_accepted_counterexample:
  "\<not> integer_literal [CHR 0xD9, CHR 0xA3]
   \<and> IntRange ''Tires Rate'' = Some (0, 10)
   \<and> out_of_range [CHR 0xD9, CHR 0xA3] 0 10 = Inr False
   \<and> add_handler \<lparr>year = 2026, month = 11, day = 3, hour = 9, minute = 5, second = 0\<rparr>
        TIRES_RATE (Text [CHR 0xD9, CHR 0xA3])
        \<lparr>user_data = cleared\<lparr>ud_research_data := Some [(''Serial ID'', ''BK-001'')]\<rparr>,
         csv_file = None, outbox = []\<rparr>
      = (Inr SEAT_HEIGHT,
         \<lparr>user_data = cleared\<lparr>ud_research_data :=
              Some [(''Serial ID'', ''BK-001''), (''Tires Rate'', [CHR 0xD9, CHR 0xA3])]\<rparr>,
          csv_file = None,
          outbox = [(''Seat Hight (1-10):'', get_seat_height_keyboard)]\<rparr>)"
  by (simp add: integer_literal_def IntRange_def add_tires_rate_def rate_step_def
      out_of_range_def isdigit_def int_str_def code_points_def width_def continuation_def
      scalar_def digit_char_def decimal_digit_def decimal_zeros_def decimal_value_def
      digit_value_def proceed_def store_field_def set_research_data_def reply_text_def
      cleared_def)

section \<open>Rows of the store as dicts\<close>

lemma dict_to_list_cells:
  assumes "length cells = length CSV_COLUMNS"
  shows "dict_to_list \<lparr>items = zip CSV_COLUMNS cells, rest = None\<rparr>
         = Inr (map (\<lambda>c. case c of Some v \<Rightarrow> v | None \<Rightarrow> []) cells)"
proof -
  let ?pick = "\<lambda>c. case c of Some (Some v) \<Rightarrow> v | _ \<Rightarrow> []"
  let ?m = "map_of (zip CSV_COLUMNS cells)"
  have keys: "map fst (zip CSV_COLUMNS cells) = CSV_COLUMNS"
    using assms by (simp add: map_fst_zip)
  have look: "map ?m CSV_COLUMNS = map Some cells"
    using assms by (intro map_of_zip_all distinct_CSV_COLUMNS) simp
  have "map (\<lambda>k. ?pick (?m k)) CSV_COLUMNS = map ?pick (map ?m CSV_COLUMNS)"
    by (simp add: comp_def)
  also have "\<dots> = map ?pick (map Some cells)"
    by (simp only: look)
  also have "\<dots> = map (\<lambda>c. case c of Some v \<Rightarrow> v | None \<Rightarrow> []) cells"
    by (simp add: comp_def)
  finally show ?thesis
    by (simp add: dict_to_list_def keys list_all_iff)
qed

lemma read_csv_store:
  "store_format t \<Longrightarrow> read_csv (Some t) = (map (row_dict CSV_COLUMNS) (tl t), Some t)"
  by (simp add: read_csv_def initialize_csv_def DictReader_store_format)

lemma read_csv_absent: "read_csv None = ([], Some [CSV_COLUMNS])"
  by (simp add: read_csv_def initialize_csv_def DictReader_def)

lemma row_dict_store:
  "length r = length CSV_COLUMNS \<Longrightarrow>
   row_dict CSV_COLUMNS r = \<lparr>items = zip CSV_COLUMNS (map Some r), rest = None\<rparr>"
  by (simp add: row_dict_full distinct_CSV_COLUMNS)

lemma serial_of_row:
  assumes "length r = length CSV_COLUMNS"
  shows "map_of (items (row_dict CSV_COLUMNS r)) ''Serial ID'' = Some (Some (hd r))"
proof -
  from assms obtain c cs where "r = c # cs"
    by (cases r) (simp_all add: length_CSV_COLUMNS)
  with assms show ?thesis
    by (simp add: row_dict_store) (simp add: CSV_COLUMNS_def)
qed

lemma rows_without_store:
  "list_all (\<lambda>r. length r = length CSV_COLUMNS) rows \<Longrightarrow>
   rows_without serial_id (map (row_dict CSV_COLUMNS) rows)
   = Inr (map (row_dict CSV_COLUMNS) (filter (\<lambda>r. hd r \<noteq> serial_id) rows))"
  by (induction rows) (simp_all add: serial_of_row)

lemma find_record_store:
  "list_all (\<lambda>r. length r = length CSV_COLUMNS) rows \<Longrightarrow>
   find_record serial_id (map (row_dict CSV_COLUMNS) rows)
   = Inr (map_option (row_dict CSV_COLUMNS) (find (\<lambda>r. hd r = serial_id) rows))"
  by (induction rows) (simp_all add: serial_of_row)

lemma set_first_no_match:
  "list_all (\<lambda>r. length r = length CSV_COLUMNS) rows \<Longrightarrow>
   \<forall>r\<in>set rows. hd r \<noteq> serial_id \<Longrightarrow>
   set_first serial_id F v (map (row_dict CSV_COLUMNS) rows)
   = Inr (map (row_dict CSV_COLUMNS) rows)"
  by (induction rows) (simp_all add: serial_of_row)

lemma set_first_match:
  assumes "list_all (\<lambda>r. length r = length CSV_COLUMNS) (pre @ r # post)"
    and "\<forall>p\<in>set pre. hd p \<noteq> serial_id" and "hd r = serial_id"
  shows "set_first serial_id F v (map (row_dict CSV_COLUMNS) (pre @ r # post))
   = Inr (map (row_dict CSV_COLUMNS) pre
          @ (row_dict CSV_COLUMNS r)\<lparr>items := dict_set (items (row_dict CSV_COLUMNS r)) F v\<rparr>
          # map (row_dict CSV_COLUMNS) post)"
  using assms by (induction pre) (simp_all add: serial_of_row)

lemma dict_set_zip:
  "distinct ks \<Longrightarrow> length ks = length vs \<Longrightarrow> i < length ks \<Longrightarrow>
   dict_set (zip ks vs) (ks ! i) v = zip ks (vs[i := v])"
proof (induction ks vs arbitrary: i rule: list_induct2')
  case (4 k ks x vs)
  show ?case
  proof (cases i)
    case 0
    then show ?thesis by simp
  next
    case (Suc j)
    with 4 have "ks ! j \<noteq> k" by auto
    with 4 Suc show ?thesis by simp
  qed
qed simp_all

lemma dict_to_list_updated:
  assumes len: "length r = length CSV_COLUMNS" and i: "i < length CSV_COLUMNS"
  shows "dict_to_list
           ((row_dict CSV_COLUMNS r)
              \<lparr>items := dict_set (items (row_dict CSV_COLUMNS r)) (CSV_COLUMNS ! i) v\<rparr>)
         = Inr (r[i := (case v of Some s \<Rightarrow> s | None \<Rightarrow> [])])"
proof -
  have "dict_set (zip CSV_COLUMNS (map Some r)) (CSV_COLUMNS ! i) v
        = zip CSV_COLUMNS ((map Some r)[i := v])"
    using len i by (intro dict_set_zip distinct_CSV_COLUMNS) simp_all
  then have "(row_dict CSV_COLUMNS r)
              \<lparr>items := dict_set (items (row_dict CSV_COLUMNS r)) (CSV_COLUMNS ! i) v\<rparr>
        = \<lparr>items = zip CSV_COLUMNS ((map Some r)[i := v]), rest = None\<rparr>"
    using len by (simp add: row_dict_store)
  moreover have "map (\<lambda>c. case c of Some v \<Rightarrow> v | None \<Rightarrow> []) ((map Some r)[i := v])
        = r[i := (case v of Some s \<Rightarrow> s | None \<Rightarrow> [])]"
    by (simp add: map_update comp_def)
  ultimately show ?thesis
    using len by (simp add: dict_to_list_cells)
qed

lemma writerows_append:
  "writerows xs = (None, t) \<Longrightarrow>
   writerows (xs @ ys) = (fst (writerows ys), t @ snd (writerows ys))"
proof (induction xs arbitrary: t)
  case Nil
  then show ?case by simp
next
  case (Cons x xs)
  then show ?case
    by (cases "dict_to_list x"; cases "writerows xs")
       (auto split: prod.splits)
qed

lemma write_csv_append:
  assumes "list_all (\<lambda>r. length r = length CSV_COLUMNS) rows"
    and "dict_to_list row = Inr cells"
  shows "write_csv (map (row_dict CSV_COLUMNS) rows @ [row])
         = (None, CSV_COLUMNS # rows @ [cells])"
  using writerows_append [OF writerows_full [OF assms(1)], of "[row]"] assms(2)
  by (simp add: write_csv_def)

lemma write_csv_rows:
  "list_all (\<lambda>r. length r = length CSV_COLUMNS) rows \<Longrightarrow>
   write_csv (map (row_dict CSV_COLUMNS) rows) = (None, CSV_COLUMNS # rows)"
  by (simp add: write_csv_def writerows_full)

lemma write_csv_updated:
  assumes len: "list_all (\<lambda>r. length r = length CSV_COLUMNS) (pre @ r # post)"
    and i: "i < length CSV_COLUMNS"
  shows "write_csv (map (row_dict CSV_COLUMNS) pre
          @ (row_dict CSV_COLUMNS r)
              \<lparr>items := dict_set (items (row_dict CSV_COLUMNS r)) (CSV_COLUMNS ! i) v\<rparr>
          # map (row_dict CSV_COLUMNS) post)
         = (None, CSV_COLUMNS # pre @ r[i := (case v of Some s \<Rightarrow> s | None \<Rightarrow> [])] # post)"
proof -
  from len have pre: "list_all (\<lambda>r. length r = length CSV_COLUMNS) pre"
    and r: "length r = length CSV_COLUMNS"
    and post: "list_all (\<lambda>r. length r = length CSV_COLUMNS) post"
    by simp_all
  let ?row = "(row_dict CSV_COLUMNS r)
              \<lparr>items := dict_set (items (row_dict CSV_COLUMNS r)) (CSV_COLUMNS ! i) v\<rparr>"
  have "writerows (?row # map (row_dict CSV_COLUMNS) post)
        = (None, r[i := (case v of Some s \<Rightarrow> s | None \<Rightarrow> [])] # post)"
    using dict_to_list_updated [OF r i, of v] writerows_full [OF post] by simp
  with writerows_append [OF writerows_full [OF pre],
      of "?row # map (row_dict CSV_COLUMNS) post"]
  show ?thesis by (simp add: write_csv_def)
qed

section \<open>Going back in the add flow\<close>

lemma later_step_cases:
  assumes "S \<in> set (tl add_steps)"
  obtains "S = INVENTORY_TAG" | "S = LOCATION" | "S = PARKING_ANGEL" | "S = TIRES_RATE"
  | "S = SEAT_HEIGHT" | "S = APPEARENCE_RATE" | "S = BATTERY_LEVEL" | "S = LEFT_BRAKE_RATE"
  | "S = RIGHT_BRAKE_RATE" | "S = PEDALING_RATE" | "S = SPEED_RATE" | "S = NOTE"
  using assms unfolding add_steps_def by auto

lemma add_handler_Back:
  assumes "S \<in> set (tl add_steps)"
  shows "add_handler now S (Text ''Back'') w =
           (Inr (prev_state S),
            reply_text (if S = TIRES_RATE then ''Is Straight Parking Angel?''
                        else fst (step_prompt (prev_state S)))
              (snd (step_prompt (prev_state S))) w)"
  using assms
  by (cases rule: later_step_cases)
     (simp_all add: add_inventory_tag_def add_location_def add_parking_angel_def
        add_tires_rate_def add_seat_height_def add_appearence_rate_def add_battery_level_def
        add_left_brake_rate_def add_right_brake_rate_def add_pedaling_rate_def
        add_speed_rate_def add_note_def rate_step_def)

text \<open>
  C2, as the code has it. At every step after the Serial ID step the token \<open>Back\<close>
  leaves the in-progress record untouched (the field of the step keeps the value it has,
  if it has one), sends the prompt of the step before with its keyboard, and moves the
  conversation to that step. (Coming back from the tires step the text of the prompt is
  not stated here.)
\<close>

theorem back_keeps_record:
  assumes "S \<in> set (tl add_steps)"
  shows "\<exists>p. add_handler now S (Text ''Back'') w =
               (Inr (prev_state S), w\<lparr>outbox := outbox w @ [(p, snd (step_prompt (prev_state S)))]\<rparr>)
             \<and> (S \<noteq> TIRES_RATE \<longrightarrow> p = fst (step_prompt (prev_state S)))"
  using add_handler_Back [OF assms, of now w]
  by (intro exI [of _ "if S = TIRES_RATE then ''Is Straight Parking Angel?''
                       else fst (step_prompt (prev_state S))"])
     (simp add: reply_text_def)

theorem back_keeps_record_witness:
  "INVENTORY_TAG \<in> set (tl add_steps) \<and>
   (\<exists>p. add_handler \<lparr>year = 2026, month = 11, day = 3, hour = 9, minute = 5, second = 0\<rparr>
           INVENTORY_TAG (Text ''Back'')
           (fresh\<lparr>user_data := cleared\<lparr>ud_research_data :=
              Some [(''Serial ID'', ''BK-001''), (''Inventory Tag'', ''T1'')]\<rparr>\<rparr>)
         = (Inr SERIAL_ID,
            fresh\<lparr>user_data := cleared\<lparr>ud_research_data :=
                    Some [(''Serial ID'', ''BK-001''), (''Inventory Tag'', ''T1'')]\<rparr>,
                  outbox := [(p, get_serial_id_keyboard)]\<rparr>)
       \<and> p = ''Enter Serial ID:'')"
  using back_keeps_record [of INVENTORY_TAG
      "\<lparr>year = 2026, month = 11, day = 3, hour = 9, minute = 5, second = 0\<rparr>"
      "fresh\<lparr>user_data := cleared\<lparr>ud_research_data :=
              Some [(''Serial ID'', ''BK-001''), (''Inventory Tag'', ''T1'')]\<rparr>\<rparr>"]
  by (simp add: add_steps_def fresh_def)

text \<open>
  The claim as it was stated fails: after a serial number, an inventory tag and twice
  \<open>Back\<close> (from the location step and from the inventory tag step) the conversation is at
  the Serial ID step and the record still holds the inventory tag.
\<close>

theorem back_discards_counterexample:
  "fst (add_flow \<lparr>year = 2026, month = 11, day = 3, hour = 9, minute = 5, second = 0\<rparr> fresh
          [Text ''BK-001'', Text ''T1'', Text ''Back'', Text ''Back'']) = SERIAL_ID
   \<and> ud_research_data (user_data (snd
        (add_flow \<lparr>year = 2026, month = 11, day = 3, hour = 9, minute = 5, second = 0\<rparr> fresh
          [Text ''BK-001'', Text ''T1'', Text ''Back'', Text ''Back''])))
     = Some [(''Serial ID'', ''BK-001''), (''Inventory Tag'', ''T1'')]
   \<and> dict_has [(''Serial ID'', ''BK-001''), (''Inventory Tag'', ''T1'')] ''Inventory Tag''"
  by (simp add: add_flow_def add_start_def add_serial_id_def add_inventory_tag_def
      add_location_def proceed_def store_field_def skip_field_def set_research_data_def
      reply_text_def fresh_def cleared_def dict_has_def)

section \<open>Deleting and writing a value on a well-formed store\<close>

lemma store_rows:
  assumes "store_format t"
  obtains rows where "t = CSV_COLUMNS # rows"
    and "list_all (\<lambda>r. length r = length CSV_COLUMNS) rows"
  using assms by (cases t) (simp_all add: store_format_def)

lemma length_filter_less_iff:
  "length (filter P xs) < length xs \<longleftrightarrow> (\<exists>x\<in>set xs. \<not> P x)"
proof
  assume "length (filter P xs) < length xs"
  then have "filter P xs \<noteq> xs" by auto
  then show "\<exists>x\<in>set xs. \<not> P x" by (auto simp: filter_id_conv)
next
  assume "\<exists>x\<in>set xs. \<not> P x"
  then show "length (filter P xs) < length xs"
    by (meson length_filter_less)
qed

lemma delete_command_store:
  assumes args: "args \<noteq> []"
    and rows: "list_all (\<lambda>r. length r = length CSV_COLUMNS) rows"
    and fl: "csv_file w = Some (CSV_COLUMNS # rows)"
  shows "delete_command args w =
     (None,
      if \<exists>r\<in>set rows. hd r = join '' '' args then
        reply_text (''Deleted '' @ quoted (join '' '' args)) NoMarkup
          (w\<lparr>csv_file := Some (CSV_COLUMNS # filter (\<lambda>r. hd r \<noteq> join '' '' args) rows)\<rparr>)
      else reply_text (''Not found '' @ quoted (join '' '' args)) NoMarkup w)"
proof -
  let ?id = "join '' '' args"
  let ?kept = "filter (\<lambda>r. hd r \<noteq> ?id) rows"
  have sf: "store_format (CSV_COLUMNS # rows)"
    using rows by (simp add: store_format_def)
  have rd: "read_csv (csv_file w) = (map (row_dict CSV_COLUMNS) rows, Some (CSV_COLUMNS # rows))"
    using read_csv_store [OF sf] fl by simp
  have kept: "list_all (\<lambda>r. length r = length CSV_COLUMNS) ?kept"
    using rows by (simp add: list_all_iff)
  have wr: "write_csv (map (row_dict CSV_COLUMNS) ?kept) = (None, CSV_COLUMNS # ?kept)"
    by (rule write_csv_rows [OF kept])
  have less: "length ?kept < length rows \<longleftrightarrow> (\<exists>r\<in>set rows. hd r = ?id)"
    by (simp add: length_filter_less_iff)
  have same: "w\<lparr>csv_file := Some (CSV_COLUMNS # rows)\<rparr> = w"
    using fl by simp
  show ?thesis
    unfolding delete_command_def Let_def rd fst_conv snd_conv
      rows_without_store [OF rows] sum.case length_map wr less same
    using args by simp
qed

lemma write_value_match:
  assumes field: "ud_update_field (user_data w) = Some (CSV_COLUMNS ! i)"
    and i: "i < length CSV_COLUMNS"
    and sid: "ud_update_serial_id (user_data w) = Some serial_id"
    and fl: "csv_file w = Some (CSV_COLUMNS # pre @ r # post)"
    and rows: "list_all (\<lambda>r. length r = length CSV_COLUMNS) (pre @ r # post)"
    and pre: "\<forall>p\<in>set pre. hd p \<noteq> serial_id" and r: "hd r = serial_id"
  shows "write_value v w =
     (Inr ConversationHandler_END,
      (reply_text ''Updated'' ReplyKeyboardRemove
         (w\<lparr>csv_file := Some (CSV_COLUMNS # pre
               @ r[i := (case v of Some s \<Rightarrow> s | None \<Rightarrow> [])] # post)\<rparr>))
        \<lparr>user_data := cleared\<rparr>)"
proof -
  have sf: "store_format (CSV_COLUMNS # pre @ r # post)"
    using rows by (simp add: store_format_def)
  have rd: "read_csv (csv_file w)
            = (map (row_dict CSV_COLUMNS) (pre @ r # post), Some (CSV_COLUMNS # pre @ r # post))"
    using read_csv_store [OF sf] fl by simp
  show ?thesis
    unfolding write_value_def field sid option.case Let_def rd fst_conv snd_conv
      set_first_match [OF rows pre r] sum.case write_csv_updated [OF rows i]
    by simp
qed

lemma write_value_no_match:
  assumes field: "ud_update_field (user_data w) = Some F"
    and sid: "ud_update_serial_id (user_data w) = Some serial_id"
    and fl: "csv_file w = Some (CSV_COLUMNS # rows)"
    and rows: "list_all (\<lambda>r. length r = length CSV_COLUMNS) rows"
    and none: "\<forall>r\<in>set rows. hd r \<noteq> serial_id"
  shows "write_value v w =
     (Inr ConversationHandler_END,
      (reply_text ''Updated'' ReplyKeyboardRemove w)\<lparr>user_data := cleared\<rparr>)"
proof -
  have sf: "store_format (CSV_COLUMNS # rows)"
    using rows by (simp add: store_format_def)
  have rd: "read_csv (csv_file w) = (map (row_dict CSV_COLUMNS) rows, Some (CSV_COLUMNS # rows))"
    using read_csv_store [OF sf] fl by simp
  have same: "w\<lparr>csv_file := Some (CSV_COLUMNS # rows)\<rparr> = w"
    using fl by simp
  show ?thesis
    unfolding write_value_def field sid option.case Let_def rd fst_conv snd_conv
      set_first_no_match [OF rows none] sum.case write_csv_rows [OF rows]
    by (simp add: same)
qed

lemma update_start_store:
  assumes args: "args \<noteq> []"
    and rows: "list_all (\<lambda>r. length r = length CSV_COLUMNS) rows"
    and fl: "csv_file w = Some (CSV_COLUMNS # rows)"
  shows "update_start args w =
     (case find (\<lambda>r. hd r = join '' '' args) rows of
        None \<Rightarrow>
          (Inr ConversationHandler_END,
           reply_text (''Not found '' @ quoted (join '' '' args)) NoMarkup w)
      | Some r \<Rightarrow>
          (Inr UPDATE_FIELD,
           reply_text (''Update field for '' @ quoted (join '' '' args) @ '':'') field_keyboard
             (w\<lparr>user_data := (user_data w)
                   \<lparr>ud_update_serial_id := Some (join '' '' args),
                    ud_update_record := Some (row_dict CSV_COLUMNS r)\<rparr>\<rparr>)))"
proof -
  have sf: "store_format (CSV_COLUMNS # rows)"
    using rows by (simp add: store_format_def)
  have rd: "read_csv (csv_file w) = (map (row_dict CSV_COLUMNS) rows, Some (CSV_COLUMNS # rows))"
    using read_csv_store [OF sf] fl by simp
  have same: "w\<lparr>csv_file := Some (CSV_COLUMNS # rows)\<rparr> = w"
    using fl by simp
  show ?thesis
    unfolding update_start_def Let_def rd fst_conv snd_conv find_record_store [OF rows] same
    using args by (simp split: option.split)
qed

section \<open>The identifier of the delete command\<close>

text \<open>
  C9, as the code has it. The identifier that \<open>/delete\<close> matches against the stored
  records is made of the arguments of the command, that is of the words typed after the
  command, joined by single blanks; the white space typed between the words is not kept.
  On a well-formed store the command raises nothing, removes the records whose Serial ID
  is that identifier, and reports the deletion if and only if some stored record has that
  Serial ID; otherwise it reports that nothing was found and leaves the store as it is.
\<close>

theorem delete_matches_joined_args:
  assumes "command_args text \<noteq> []"
    and "list_all (\<lambda>r. length r = length CSV_COLUMNS) rows"
    and "csv_file w = Some (CSV_COLUMNS # rows)"
  shows "delete_command (command_args text) w =
     (None,
      if \<exists>r\<in>set rows. hd r = join '' '' (command_args text) then
        reply_text (''Deleted '' @ quoted (join '' '' (command_args text))) NoMarkup
          (w\<lparr>csv_file := Some (CSV_COLUMNS #
                filter (\<lambda>r. hd r \<noteq> join '' '' (command_args text)) rows)\<rparr>)
      else reply_text (''Not found '' @ quoted (join '' '' (command_args text))) NoMarkup w)"
  using assms by (rule delete_command_store)

theorem delete_matches_joined_args_witness:
  "command_args ''/delete A  B'' \<noteq> []
   \<and> list_all (\<lambda>r. length r = length CSV_COLUMNS)
        [''A  B'' # replicate 13 ''N/A'', ''A B'' # replicate 13 ''N/A'']
   \<and> delete_command (command_args ''/delete A  B'')
        (fresh\<lparr>csv_file := Some [CSV_COLUMNS, ''A  B'' # replicate 13 ''N/A'',
                                 ''A B'' # replicate 13 ''N/A'']\<rparr>)
     = (None,
        fresh\<lparr>csv_file := Some [CSV_COLUMNS, ''A  B'' # replicate 13 ''N/A''],
              outbox := [(''Deleted '' @ quoted ''A B'', NoMarkup)]\<rparr>)"
  using delete_matches_joined_args [of "''/delete A  B''"
      "[''A  B'' # replicate 13 ''N/A'', ''A B'' # replicate 13 ''N/A'']"
      "fresh\<lparr>csv_file := Some [CSV_COLUMNS, ''A  B'' # replicate 13 ''N/A'',
                               ''A B'' # replicate 13 ''N/A'']\<rparr>"]
  by (simp add: command_args_def str_split_def whitespace_def width_def length_CSV_COLUMNS
      fresh_def reply_text_def)

text \<open>
  The claim as it was stated fails: for the command line \<open>/delete A  B\<close>, typed with two
  blanks, what was typed after the command is \<open>A  B\<close>, and a record with exactly this
  Serial ID is stored; the command looks for \<open>A B\<close>, finds nothing and deletes nothing.
\<close>

theorem delete_literal_remainder_counterexample:
  "literal_remainder ''/delete A  B'' = ''A  B''
   \<and> join '' '' (command_args ''/delete A  B'') = ''A B''
   \<and> delete_command (command_args ''/delete A  B'')
        (fresh\<lparr>csv_file := Some [CSV_COLUMNS, ''A  B'' # replicate 13 ''N/A'']\<rparr>)
     = (None,
        fresh\<lparr>csv_file := Some [CSV_COLUMNS, ''A  B'' # replicate 13 ''N/A''],
              outbox := [(''Not found '' @ quoted ''A B'', NoMarkup)]\<rparr>)"
proof -
  have args: "command_args ''/delete A  B'' = [''A'', ''B'']"
    by (simp add: command_args_def str_split_def whitespace_def width_def)
  have "delete_command [''A'', ''B'']
          (fresh\<lparr>csv_file := Some [CSV_COLUMNS, ''A  B'' # replicate 13 ''N/A'']\<rparr>)
        = (None,
           fresh\<lparr>csv_file := Some [CSV_COLUMNS, ''A  B'' # replicate 13 ''N/A''],
                 outbox := [(''Not found '' @ quoted ''A B'', NoMarkup)]\<rparr>)"
    using delete_command_store [of "[''A'', ''B'']" "[''A  B'' # replicate 13 ''N/A'']"
        "fresh\<lparr>csv_file := Some [CSV_COLUMNS, ''A  B'' # replicate 13 ''N/A'']\<rparr>"]
    by (simp add: length_CSV_COLUMNS fresh_def reply_text_def)
  then show ?thesis
    by (simp add: args literal_remainder_def whitespace_def width_def)
qed

section \<open>One identifier, several records\<close>

lemma find_first_match:
  "\<forall>p\<in>set pre. \<not> P p \<Longrightarrow> P r \<Longrightarrow> find P (pre @ r # post) = Some r"
  by (induction pre) simp_all

text \<open>
  C5. On a well-formed store, \<open>/delete\<close> removes every record whose Serial ID is the
  given identifier and reports the deletion if and only if the number of records has
  changed. \<open>/update\<close> looks up the first such record only, and the write of the update flow
  changes the chosen column of the first such record only: the records after it, with the
  same Serial ID or not, stay as they are.
\<close>

theorem delete_all_update_first:
  assumes args: "args \<noteq> []"
    and rows: "list_all (\<lambda>r. length r = length CSV_COLUMNS) rows"
    and fl: "csv_file w = Some (CSV_COLUMNS # rows)"
  shows "fst (delete_command args w) = None
    \<and> csv_file (snd (delete_command args w))
        = Some (CSV_COLUMNS # filter (\<lambda>r. hd r \<noteq> join '' '' args) rows)
    \<and> outbox (snd (delete_command args w)) = outbox w @
        [((if length (filter (\<lambda>r. hd r \<noteq> join '' '' args) rows) < length rows
           then ''Deleted '' else ''Not found '') @ quoted (join '' '' args), NoMarkup)]
    \<and> (rows = pre @ r # post \<and> (\<forall>p\<in>set pre. hd p \<noteq> join '' '' args)
         \<and> hd r = join '' '' args \<longrightarrow>
          fst (update_start args w) = Inr UPDATE_FIELD
          \<and> ud_update_record (user_data (snd (update_start args w)))
              = Some (row_dict CSV_COLUMNS r)
          \<and> (ud_update_serial_id (user_data w) = Some (join '' '' args)
               \<and> ud_update_field (user_data w) = Some (CSV_COLUMNS ! i)
               \<and> i < length CSV_COLUMNS \<longrightarrow>
              fst (write_value v w) = Inr ConversationHandler_END
              \<and> csv_file (snd (write_value v w))
                  = Some (CSV_COLUMNS # pre
                          @ r[i := (case v of Some s \<Rightarrow> s | None \<Rightarrow> [])] # post)))"
proof -
  let ?id = "join '' '' args"
  have del: "fst (delete_command args w) = None
    \<and> csv_file (snd (delete_command args w))
        = Some (CSV_COLUMNS # filter (\<lambda>r. hd r \<noteq> ?id) rows)
    \<and> outbox (snd (delete_command args w)) = outbox w @
        [((if length (filter (\<lambda>r. hd r \<noteq> ?id) rows) < length rows
           then ''Deleted '' else ''Not found '') @ quoted ?id, NoMarkup)]"
  proof (cases "\<exists>r\<in>set rows. hd r = ?id")
    case True
    then have "length (filter (\<lambda>r. hd r \<noteq> ?id) rows) < length rows"
      by (simp add: length_filter_less_iff)
    with True show ?thesis
      by (simp add: delete_command_store [OF args rows fl] reply_text_def)
  next
    case False
    then have "filter (\<lambda>r. hd r \<noteq> ?id) rows = rows"
      by (auto intro: filter_True)
    with False fl show ?thesis
      by (simp add: delete_command_store [OF args rows fl] reply_text_def)
  qed
  have upd: "fst (update_start args w) = Inr UPDATE_FIELD
          \<and> ud_update_record (user_data (snd (update_start args w)))
              = Some (row_dict CSV_COLUMNS r)
          \<and> (ud_update_serial_id (user_data w) = Some ?id
               \<and> ud_update_field (user_data w) = Some (CSV_COLUMNS ! i)
               \<and> i < length CSV_COLUMNS \<longrightarrow>
              fst (write_value v w) = Inr ConversationHandler_END
              \<and> csv_file (snd (write_value v w))
                  = Some (CSV_COLUMNS # pre
                          @ r[i := (case v of Some s \<Rightarrow> s | None \<Rightarrow> [])] # post))"
    if split: "rows = pre @ r # post" and pre: "\<forall>p\<in>set pre. hd p \<noteq> ?id" and r: "hd r = ?id"
  proof (intro conjI impI)
    have found: "find (\<lambda>r. hd r = ?id) rows = Some r"
      unfolding split using pre r by (intro find_first_match) simp_all
    show "fst (update_start args w) = Inr UPDATE_FIELD"
      by (simp add: update_start_store [OF args rows fl] found)
    show "ud_update_record (user_data (snd (update_start args w)))
              = Some (row_dict CSV_COLUMNS r)"
      by (simp add: update_start_store [OF args rows fl] found reply_text_def)
  next
    assume a: "ud_update_serial_id (user_data w) = Some ?id
               \<and> ud_update_field (user_data w) = Some (CSV_COLUMNS ! i)
               \<and> i < length CSV_COLUMNS"
    from rows fl have rows': "list_all (\<lambda>r. length r = length CSV_COLUMNS) (pre @ r # post)"
      and fl': "csv_file w = Some (CSV_COLUMNS # pre @ r # post)"
      unfolding split by simp_all
    from a have wv: "write_value v w =
       (Inr ConversationHandler_END,
        (reply_text ''Updated'' ReplyKeyboardRemove
           (w\<lparr>csv_file := Some (CSV_COLUMNS # pre
                 @ r[i := (case v of Some s \<Rightarrow> s | None \<Rightarrow> [])] # post)\<rparr>))
          \<lparr>user_data := cleared\<rparr>)"
      by (intro write_value_match [OF _ _ _ fl' rows' pre r]) simp_all
    show "fst (write_value v w) = Inr ConversationHandler_END"
      by (simp add: wv)
    show "csv_file (snd (write_value v w))
                  = Some (CSV_COLUMNS # pre
                          @ r[i := (case v of Some s \<Rightarrow> s | None \<Rightarrow> [])] # post)"
      by (simp add: wv reply_text_def)
  qed
  from del upd show ?thesis by blast
qed

theorem delete_all_update_first_witness:
  "[''A''] \<noteq> []
   \<and> list_all (\<lambda>r. length r = length CSV_COLUMNS)
       [[''A'', ''1'', ''1'', ''1'', ''1'', ''1'', ''1'', ''1'', ''1'', ''1'', ''1'', ''1'', ''1'', ''1''], [''B'', ''2'', ''2'', ''2'', ''2'', ''2'', ''2'', ''2'', ''2'', ''2'', ''2'', ''2'', ''2'', ''2''], [''A'', ''3'', ''3'', ''3'', ''3'', ''3'', ''3'', ''3'', ''3'', ''3'', ''3'', ''3'', ''3'', ''3'']]
   \<and> csv_file (snd (delete_command [''A'']
        (fresh\<lparr>csv_file := Some [CSV_COLUMNS, [''A'', ''1'', ''1'', ''1'', ''1'', ''1'', ''1'', ''1'', ''1'', ''1'', ''1'', ''1'', ''1'', ''1''],
                   [''B'', ''2'', ''2'', ''2'', ''2'', ''2'', ''2'', ''2'', ''2'', ''2'', ''2'', ''2'', ''2'', ''2''], [''A'', ''3'', ''3'', ''3'', ''3'', ''3'', ''3'', ''3'', ''3'', ''3'', ''3'', ''3'', ''3'', ''3'']],
               user_data := cleared\<lparr>ud_update_serial_id := Some ''A'',
                                      ud_update_field := Some ''Tires Rate''\<rparr>\<rparr>)))
     = Some [CSV_COLUMNS, [''B'', ''2'', ''2'', ''2'', ''2'', ''2'', ''2'', ''2'', ''2'', ''2'', ''2'', ''2'', ''2'', ''2'']]
   \<and> ud_update_record (user_data (snd (update_start [''A'']
        (fresh\<lparr>csv_file := Some [CSV_COLUMNS, [''A'', ''1'', ''1'', ''1'', ''1'', ''1'', ''1'', ''1'', ''1'', ''1'', ''1'', ''1'', ''1'', ''1''],
                   [''B'', ''2'', ''2'', ''2'', ''2'', ''2'', ''2'', ''2'', ''2'', ''2'', ''2'', ''2'', ''2'', ''2''], [''A'', ''3'', ''3'', ''3'', ''3'', ''3'', ''3'', ''3'', ''3'', ''3'', ''3'', ''3'', ''3'', ''3'']],
               user_data := cleared\<lparr>ud_update_serial_id := Some ''A'',
                                      ud_update_field := Some ''Tires Rate''\<rparr>\<rparr>))))
     = Some (row_dict CSV_COLUMNS ([''A'', ''1'', ''1'', ''1'', ''1'', ''1'', ''1'', ''1'', ''1'', ''1'', ''1'', ''1'', ''1'', ''1'']))
   \<and> csv_file (snd (write_value (Some ''7'')
        (fresh\<lparr>csv_file := Some [CSV_COLUMNS, [''A'', ''1'', ''1'', ''1'', ''1'', ''1'', ''1'', ''1'', ''1'', ''1'', ''1'', ''1'', ''1'', ''1''],
                   [''B'', ''2'', ''2'', ''2'', ''2'', ''2'', ''2'', ''2'', ''2'', ''2'', ''2'', ''2'', ''2'', ''2''], [''A'', ''3'', ''3'', ''3'', ''3'', ''3'', ''3'', ''3'', ''3'', ''3'', ''3'', ''3'', ''3'', ''3'']],
               user_data := cleared\<lparr>ud_update_serial_id := Some ''A'',
                                      ud_update_field := Some ''Tires Rate''\<rparr>\<rparr>)))
     = Some [CSV_COLUMNS,
             [''A'', ''1'', ''1'', ''1'', ''1'', ''7'', ''1'', ''1'', ''1'', ''1'', ''1'', ''1'',
              ''1'', ''1''],
             [''B'', ''2'', ''2'', ''2'', ''2'', ''2'', ''2'', ''2'', ''2'', ''2'', ''2'', ''2'', ''2'', ''2''], [''A'', ''3'', ''3'', ''3'', ''3'', ''3'', ''3'', ''3'', ''3'', ''3'', ''3'', ''3'', ''3'', ''3'']]"
  using delete_all_update_first [of "[''A'']"
      "[[''A'', ''1'', ''1'', ''1'', ''1'', ''1'', ''1'', ''1'', ''1'', ''1'', ''1'', ''1'', ''1'', ''1''], [''B'', ''2'', ''2'', ''2'', ''2'', ''2'', ''2'', ''2'', ''2'', ''2'', ''2'', ''2'', ''2'', ''2''], [''A'', ''3'', ''3'', ''3'', ''3'', ''3'', ''3'', ''3'', ''3'', ''3'', ''3'', ''3'', ''3'', ''3'']]"
      "fresh\<lparr>csv_file := Some [CSV_COLUMNS, [''A'', ''1'', ''1'', ''1'', ''1'', ''1'', ''1'', ''1'', ''1'', ''1'', ''1'', ''1'', ''1'', ''1''],
                   [''B'', ''2'', ''2'', ''2'', ''2'', ''2'', ''2'', ''2'', ''2'', ''2'', ''2'', ''2'', ''2'', ''2''], [''A'', ''3'', ''3'', ''3'', ''3'', ''3'', ''3'', ''3'', ''3'', ''3'', ''3'', ''3'', ''3'', ''3'']],
             user_data := cleared\<lparr>ud_update_serial_id := Some ''A'',
                                    ud_update_field := Some ''Tires Rate''\<rparr>\<rparr>"
      "[]" "[''A'', ''1'', ''1'', ''1'', ''1'', ''1'', ''1'', ''1'', ''1'', ''1'', ''1'', ''1'', ''1'', ''1'']"
      "[[''B'', ''2'', ''2'', ''2'', ''2'', ''2'', ''2'', ''2'', ''2'', ''2'', ''2'', ''2'', ''2'', ''2''], [''A'', ''3'', ''3'', ''3'', ''3'', ''3'', ''3'', ''3'', ''3'', ''3'', ''3'', ''3'', ''3'', ''3'']]" 5 "Some ''7''"]
  by (simp add: fresh_def CSV_COLUMNS_def)

section \<open>Skipping a field\<close>

lemma set_research_data_same:
  "ud_research_data (user_data w) = Some rd \<Longrightarrow> set_research_data rd w = w"
  by (cases w, cases "user_data w") (simp add: set_research_data_def)

lemma skip_field_Some:
  "ud_research_data (user_data w) = Some rd \<Longrightarrow>
   skip_field F w =
     Inr (set_research_data (if dict_has rd F then rd else dict_set rd F ''N/A'') w)"
  by (simp add: skip_field_def set_research_data_same)

lemma add_handler_Skip:
  assumes "S \<in> set (tl add_steps)" and "S \<noteq> NOTE"
    and rd: "ud_research_data (user_data w) = Some rd"
  shows "add_handler now S (Text ''Skip'') w =
     (Inr (next_state S),
      reply_text (fst (step_prompt (next_state S))) (snd (step_prompt (next_state S)))
        (set_research_data
           (if dict_has rd (step_field S) then rd else dict_set rd (step_field S) ''N/A'') w))"
  using assms(1,2)
  by (cases rule: later_step_cases)
     (simp_all add: add_inventory_tag_def add_location_def add_parking_angel_def
        add_tires_rate_def add_seat_height_def add_appearence_rate_def add_battery_level_def
        add_left_brake_rate_def add_right_brake_rate_def add_pedaling_rate_def
        add_speed_rate_def rate_step_def proceed_def skip_field_Some [OF rd])

lemma add_note_Skip:
  assumes rd: "ud_research_data (user_data w) = Some rd"
  shows "add_handler now NOTE (Text ''Skip'') w =
     save_record now
       (set_research_data (if dict_has rd ''Note'' then rd else dict_set rd ''Note'' ''N/A'') w)"
  by (simp add: add_note_def skip_field_Some [OF rd])

lemma update_value_Skip: "update_value (Text ''Skip'') w = write_value (Some ''N/A'') w"
  by (simp add: update_value_def)

text \<open>
  C1. In the add flow the token \<open>Skip\<close>, at any step after the Serial ID step, sets the
  field of the step to \<open>N/A\<close> only when the in-progress record has no value for it, keeps
  a value that is there, and goes on (to the next step, or from the note step to the saving
  of the record). In the update flow \<open>Skip\<close> writes \<open>N/A\<close> into the chosen column of the
  first record with the given Serial ID, whatever that cell held.
\<close>

theorem skip_add_keeps_update_overwrites:
  "(S \<in> set (tl add_steps) \<and> ud_research_data (user_data w) = Some rd \<longrightarrow>
      (S \<noteq> NOTE \<longrightarrow>
         fst (add_handler now S (Text ''Skip'') w) = Inr (next_state S) \<and>
         ud_research_data (user_data (snd (add_handler now S (Text ''Skip'') w)))
           = Some (if dict_has rd (step_field S) then rd
                   else dict_set rd (step_field S) ''N/A'')) \<and>
      (S = NOTE \<longrightarrow>
         add_handler now S (Text ''Skip'') w =
           save_record now
             (set_research_data
                (if dict_has rd ''Note'' then rd else dict_set rd ''Note'' ''N/A'') w)))
   \<and> (ud_update_field (user_data w) = Some (CSV_COLUMNS ! i) \<and> i < length CSV_COLUMNS
       \<and> ud_update_serial_id (user_data w) = Some serial_id
       \<and> csv_file w = Some (CSV_COLUMNS # pre @ r # post)
       \<and> list_all (\<lambda>r. length r = length CSV_COLUMNS) (pre @ r # post)
       \<and> (\<forall>p\<in>set pre. hd p \<noteq> serial_id) \<and> hd r = serial_id \<longrightarrow>
         fst (update_value (Text ''Skip'') w) = Inr ConversationHandler_END \<and>
         csv_file (snd (update_value (Text ''Skip'') w))
           = Some (CSV_COLUMNS # pre @ r[i := ''N/A''] # post))"
proof (intro conjI impI)
  assume a: "S \<in> set (tl add_steps) \<and> ud_research_data (user_data w) = Some rd"
    and "S \<noteq> NOTE"
  then have eq: "add_handler now S (Text ''Skip'') w =
     (Inr (next_state S),
      reply_text (fst (step_prompt (next_state S))) (snd (step_prompt (next_state S)))
        (set_research_data
           (if dict_has rd (step_field S) then rd else dict_set rd (step_field S) ''N/A'') w))"
    by (intro add_handler_Skip) simp_all
  show "fst (add_handler now S (Text ''Skip'') w) = Inr (next_state S)"
    by (simp add: eq)
  show "ud_research_data (user_data (snd (add_handler now S (Text ''Skip'') w)))
           = Some (if dict_has rd (step_field S) then rd
                   else dict_set rd (step_field S) ''N/A'')"
    by (simp add: eq reply_text_def set_research_data_def)
next
  assume "S \<in> set (tl add_steps) \<and> ud_research_data (user_data w) = Some rd"
    and "S = NOTE"
  then show "add_handler now S (Text ''Skip'') w =
           save_record now
             (set_research_data
                (if dict_has rd ''Note'' then rd else dict_set rd ''Note'' ''N/A'') w)"
    using add_note_Skip [of w rd now] by simp
next
  assume a: "ud_update_field (user_data w) = Some (CSV_COLUMNS ! i) \<and> i < length CSV_COLUMNS
       \<and> ud_update_serial_id (user_data w) = Some serial_id
       \<and> csv_file w = Some (CSV_COLUMNS # pre @ r # post)
       \<and> list_all (\<lambda>r. length r = length CSV_COLUMNS) (pre @ r # post)
       \<and> (\<forall>p\<in>set pre. hd p \<noteq> serial_id) \<and> hd r = serial_id"
  then have wv: "write_value (Some ''N/A'') w =
     (Inr ConversationHandler_END,
      (reply_text ''Updated'' ReplyKeyboardRemove
         (w\<lparr>csv_file := Some (CSV_COLUMNS # pre
               @ r[i := (case Some ''N/A'' of Some s \<Rightarrow> s | None \<Rightarrow> [])] # post)\<rparr>))
        \<lparr>user_data := cleared\<rparr>)"
    by (intro write_value_match) simp_all
  show "fst (update_value (Text ''Skip'') w) = Inr ConversationHandler_END"
    by (simp add: update_value_Skip wv)
  show "csv_file (snd (update_value (Text ''Skip'') w))
           = Some (CSV_COLUMNS # pre @ r[i := ''N/A''] # post)"
    by (simp add: update_value_Skip wv reply_text_def)
qed

theorem skip_add_keeps_update_overwrites_witness:
  "TIRES_RATE \<in> set (tl add_steps)
   \<and> ud_research_data (user_data (fresh\<lparr>user_data := cleared
        \<lparr>ud_research_data := Some [(''Serial ID'', ''A''), (''Tires Rate'', ''7'')],
         ud_update_serial_id := Some ''A'', ud_update_field := Some ''Tires Rate''\<rparr>,
        csv_file := Some [CSV_COLUMNS, [''A'', ''T'', ''7'', ''7'', ''7'', ''7'', ''7'', ''7'', ''7'', ''7'', ''7'', ''7'', ''note'', ''2026-11-03 09:05:00'']]\<rparr>))
     = Some [(''Serial ID'', ''A''), (''Tires Rate'', ''7'')]
   \<and> ud_research_data (user_data (snd (add_handler \<lparr>year = 2026, month = 11, day = 3, hour = 9, minute = 5, second = 0\<rparr> TIRES_RATE (Text ''Skip'')
        (fresh\<lparr>user_data := cleared
          \<lparr>ud_research_data := Some [(''Serial ID'', ''A''), (''Tires Rate'', ''7'')],
           ud_update_serial_id := Some ''A'', ud_update_field := Some ''Tires Rate''\<rparr>,
          csv_file := Some [CSV_COLUMNS, [''A'', ''T'', ''7'', ''7'', ''7'', ''7'', ''7'', ''7'', ''7'', ''7'', ''7'', ''7'', ''note'', ''2026-11-03 09:05:00'']]\<rparr>))))
     = Some [(''Serial ID'', ''A''), (''Tires Rate'', ''7'')]
   \<and> csv_file (snd (update_value (Text ''Skip'')
        (fresh\<lparr>user_data := cleared
          \<lparr>ud_research_data := Some [(''Serial ID'', ''A''), (''Tires Rate'', ''7'')],
           ud_update_serial_id := Some ''A'', ud_update_field := Some ''Tires Rate''\<rparr>,
          csv_file := Some [CSV_COLUMNS, [''A'', ''T'', ''7'', ''7'', ''7'', ''7'', ''7'', ''7'', ''7'', ''7'', ''7'', ''7'', ''note'', ''2026-11-03 09:05:00'']]\<rparr>)))
     = Some [CSV_COLUMNS, [''A'', ''T'', ''7'', ''7'', ''7'', ''N/A'', ''7'', ''7'', ''7'', ''7'', ''7'', ''7'', ''note'', ''2026-11-03 09:05:00'']]"
  using skip_add_keeps_update_overwrites [of TIRES_RATE
      "fresh\<lparr>user_data := cleared
          \<lparr>ud_research_data := Some [(''Serial ID'', ''A''), (''Tires Rate'', ''7'')],
           ud_update_serial_id := Some ''A'', ud_update_field := Some ''Tires Rate''\<rparr>,
          csv_file := Some [CSV_COLUMNS, [''A'', ''T'', ''7'', ''7'', ''7'', ''7'', ''7'', ''7'', ''7'', ''7'', ''7'', ''7'', ''note'', ''2026-11-03 09:05:00'']]\<rparr>"
      "[(''Serial ID'', ''A''), (''Tires Rate'', ''7'')]"
      "\<lparr>year = 2026, month = 11, day = 3, hour = 9, minute = 5, second = 0\<rparr>" 5 "''A''" "[]" "[''A'', ''T'', ''7'', ''7'', ''7'', ''7'', ''7'', ''7'', ''7'', ''7'', ''7'', ''7'', ''note'', ''2026-11-03 09:05:00'']" "[]"]
  by (simp add: fresh_def cleared_def add_steps_def dict_has_def CSV_COLUMNS_def)

section \<open>The in-progress record along the add flow\<close>

lemma all_fields_eq:
  "all_fields =
     [''Serial ID'', ''Inventory Tag'', ''Location'', ''Is Straight Parking Angel'',
      ''Tires Rate'', ''Seat Hight'', ''Appearence Rate'', ''Battery Level'',
      ''Left Brake Rate'', ''Right Brake Rate'', ''Pedaling Rate'', ''Speed Rate'',
      ''Note'', ''Date'']"
  by (simp add: all_fields_def add_steps_def)

lemma distinct_all_fields: "distinct all_fields"
  by (simp add: all_fields_eq)

lemma length_all_fields: "length all_fields = 14"
  by (simp add: all_fields_eq)

lemma take_Suc_nth:
  "n < length xs \<Longrightarrow> take n xs @ [xs ! n] = take (Suc n) xs"
  by (simp add: take_Suc_conv_app_nth)

lemma nth_in_take_iff:
  assumes "distinct xs" and "n < length xs"
  shows "xs ! n \<in> set (take m xs) \<longleftrightarrow> n < m"
proof
  assume "xs ! n \<in> set (take m xs)"
  then obtain j where j: "j < length (take m xs)" and eq: "take m xs ! j = xs ! n"
    by (auto simp: in_set_conv_nth)
  then have "xs ! j = xs ! n" and "j < length xs" and "j < m" by simp_all
  with assms have "j = n" by (simp add: nth_eq_iff_index_eq)
  with \<open>j < m\<close> show "n < m" by simp
next
  assume "n < m"
  with assms(2) have "n < length (take m xs)" by simp
  then have "take m xs ! n \<in> set (take m xs)" by (rule nth_mem)
  with \<open>n < m\<close> show "xs ! n \<in> set (take m xs)" by simp
qed

lemma length_dict_set_present:
  "k \<in> fst ` set d \<Longrightarrow> length (dict_set d k v) = length d"
  by (induction d) force+

lemma set_dict_set: "set (dict_set d k v) \<subseteq> insert (k, v) (set d)"
  by (induction d) (auto split: if_splits)

lemma record_ok_at_set:
  assumes ok: "record_ok_at P n rd" and n: "n < length all_fields"
    and P: "P (all_fields ! n) v"
  shows "record_ok_at P (Suc n) (dict_set rd (all_fields ! n) v)"
proof -
  let ?F = "all_fields ! n"
  from ok have keys: "map fst rd = take (length rd) all_fields" and le: "n \<le> length rd"
    and all: "list_all (\<lambda>(k, v). P k v) rd"
    by (simp_all add: record_ok_at_def)
  have vals: "list_all (\<lambda>(k, v). P k v) (dict_set rd ?F v)"
    using all P set_dict_set [of rd ?F v] by (auto simp: list_all_iff)
  have mem: "?F \<in> fst ` set rd \<longleftrightarrow> n < length rd"
  proof -
    have "fst ` set rd = set (map fst rd)" by simp
    also have "\<dots> = set (take (length rd) all_fields)" by (simp only: keys)
    finally show ?thesis
      using nth_in_take_iff [OF distinct_all_fields n, of "length rd"] by simp
  qed
  show ?thesis
  proof (cases "n < length rd")
    case True
    with mem have "?F \<in> fst ` set rd" by simp
    then have "map fst (dict_set rd ?F v) = map fst rd"
      and "length (dict_set rd ?F v) = length rd"
      by (simp_all add: dict_set_keys_present length_dict_set_present)
    with keys True vals show ?thesis by (simp add: record_ok_at_def)
  next
    case False
    with le have len: "length rd = n" by simp
    from False mem have "?F \<notin> fst ` set rd" by simp
    then have app: "dict_set rd ?F v = rd @ [(?F, v)]" by (rule dict_set_absent)
    have "map fst (rd @ [(?F, v)]) = take n all_fields @ [?F]"
      using keys len by simp
    also have "\<dots> = take (Suc n) all_fields" using n by (rule take_Suc_nth)
    finally show ?thesis
      using vals len by (simp add: record_ok_at_def app)
  qed
qed



lemma record_ok_at_full:
  assumes "record_ok_at P 14 rd"
  shows "map fst rd = all_fields"
proof -
  from assms have keys: "map fst rd = take (length rd) all_fields" and "14 \<le> length rd"
    by (simp_all add: record_ok_at_def)
  then show ?thesis by (simp add: length_all_fields)
qed

section \<open>The steps of the add flow keep the record in order\<close>

lemma csv_file_reply [simp]: "csv_file (reply_text t k w) = csv_file w"
  by (simp add: reply_text_def)

lemma user_data_reply [simp]: "user_data (reply_text t k w) = user_data w"
  by (simp add: reply_text_def)

lemma rec_inv_reply [simp]: "rec_inv P S (reply_text t k w) = rec_inv P S w"
  by (simp add: rec_inv_def)











section \<open>Saving the record\<close>

lemma all_fields_columns: "list_all (\<lambda>k. k \<in> set CSV_COLUMNS) all_fields"
  by (simp add: all_fields_eq CSV_COLUMNS_def)


lemma map_of_record_row:
  "map_of (items (record_row rd)) k = map_option Some (map_of rd k)"
  by (induction rd) (auto simp: record_row_def)

lemma dict_to_list_record:
  assumes "map fst rd = all_fields"
  shows "dict_to_list (record_row rd)
         = Inr (map (\<lambda>c. case map_of rd c of Some v \<Rightarrow> v | None \<Rightarrow> []) CSV_COLUMNS)"
proof -
  have "map fst (items (record_row rd)) = map fst rd"
    by (simp add: record_row_def comp_def case_prod_beta)
  with assms have keys: "list_all (\<lambda>k. k \<in> set CSV_COLUMNS) (map fst (items (record_row rd)))"
    by (simp add: all_fields_columns)
  have "rest (record_row rd) = None" by (simp add: record_row_def)
  moreover have "(case map_of (items (record_row rd)) c of Some (Some v) \<Rightarrow> v | _ \<Rightarrow> [])
        = (case map_of rd c of Some v \<Rightarrow> v | None \<Rightarrow> [])" for c
    by (simp add: map_of_record_row split: option.split)
  ultimately show ?thesis
    using keys by (simp add: dict_to_list_def)
qed

lemma rows_ok_length:
  "rows_ok P rows \<Longrightarrow> list_all (\<lambda>r. length r = length CSV_COLUMNS) rows"
  by (simp add: rows_ok_def list_all_iff)

lemma read_csv_ok:
  assumes "store_ok P f"
  obtains rows where "read_csv f = (map (row_dict CSV_COLUMNS) rows, Some (CSV_COLUMNS # rows))"
    and "rows_ok P rows"
proof (cases f)
  case None
  then have "read_csv f = (map (row_dict CSV_COLUMNS) [], Some (CSV_COLUMNS # []))"
    by (simp add: read_csv_absent)
  moreover have "rows_ok P []" by (simp add: rows_ok_def)
  ultimately show ?thesis by (rule that)
next
  case (Some t)
  with assms obtain rows where t: "t = CSV_COLUMNS # rows" and ok: "rows_ok P rows"
    by (cases t) (simp_all add: store_ok_def)
  from rows_ok_length [OF ok] have "store_format t"
    by (simp add: store_format_def t)
  from read_csv_store [OF this] Some t
  have "read_csv f = (map (row_dict CSV_COLUMNS) rows, Some (CSV_COLUMNS # rows))" by simp
  then show ?thesis using ok by (rule that)
qed



lemma dated_record_ok:
  assumes P: "\<And>F v. stored F v \<Longrightarrow> P F v" and ok: "record_ok_at P 13 rd0"
  shows "record_ok_at P 14 (dict_set rd0 ''Date'' (strftime now))"
proof -
  have "record_ok_at P (Suc 13) (dict_set rd0 (all_fields ! 13) (strftime now))"
    by (rule record_ok_at_set [OF ok])
       (simp_all add: all_fields_eq P [OF stored_date])
  then show ?thesis by (simp add: all_fields_eq)
qed


lemma save_record_store:
  assumes P: "\<And>F v. stored F v \<Longrightarrow> P F v"
    and rd0: "ud_research_data (user_data w) = Some rd0" and ok: "record_ok_at P 13 rd0"
    and st: "read_csv (csv_file w) = (map (row_dict CSV_COLUMNS) rows, Some (CSV_COLUMNS # rows))"
    and rows: "list_all (\<lambda>r. length r = length CSV_COLUMNS) rows"
  shows "save_record now w =
     (Inr ConversationHandler_END,
      \<lparr>user_data = cleared,
       csv_file = Some (CSV_COLUMNS # rows @
         [map (\<lambda>c. case map_of (dict_set rd0 ''Date'' (strftime now)) c of
                     Some v \<Rightarrow> v | None \<Rightarrow> []) CSV_COLUMNS]),
       outbox = outbox w @
         [(format_summary (dict_set rd0 ''Date'' (strftime now)), ReplyKeyboardRemove),
          (''Saved'', NoMarkup)]\<rparr>)"
proof -
  let ?rd = "dict_set rd0 ''Date'' (strftime now)"
  from dated_record_ok [OF P ok] have "map fst ?rd = all_fields"
    by (rule record_ok_at_full)
  then have "dict_to_list (record_row ?rd)
         = Inr (map (\<lambda>c. case map_of ?rd c of Some v \<Rightarrow> v | None \<Rightarrow> []) CSV_COLUMNS)"
    by (rule dict_to_list_record)
  from write_csv_append [OF rows this] rd0 st show ?thesis
    by (simp add: save_record_def Let_def reply_text_def set_research_data_def)
qed

section \<open>The invariant along the add flow\<close>

lemma add_inv_reply [simp]: "add_inv P b S (reply_text t k w) = add_inv P b S w"
  by (simp add: add_inv_def)







section \<open>An add flow with every field skipped\<close>

lemma replicate_12: "replicate 12 x = [x, x, x, x, x, x, x, x, x, x, x, x]"
  by (simp add: eval_nat_numeral)

lemma replicate_11: "replicate 11 x = [x, x, x, x, x, x, x, x, x, x, x]"
  by (simp add: eval_nat_numeral)

lemma add_conversation_append:
  "add_conversation now S w (ms @ ms') =
     add_conversation now (fst (add_conversation now S w ms))
       (snd (add_conversation now S w ms)) ms'"
proof (induction ms arbitrary: S w)
  case Nil
  then show ?case by simp
next
  case (Cons m ms)
  show ?case
  proof (cases "S = ConversationHandler_END")
    case True
    then show ?thesis by (cases ms') simp_all
  next
    case False
    then show ?thesis
      by (cases "add_handler now S m w") (simp add: Cons.IH split: sum.split)
  qed
qed

lemma skipped_to_note:
  "sid \<noteq> ''Cancel'' \<Longrightarrow>
   add_flow now w (Text sid # replicate 11 (Text ''Skip'')) =
     (NOTE,
      w\<lparr>user_data := (user_data w)\<lparr>ud_research_data := Some
            [(''Serial ID'', sid), (''Inventory Tag'', ''N/A''), (''Location'', ''N/A''),
             (''Is Straight Parking Angel'', ''N/A''), (''Tires Rate'', ''N/A''),
             (''Seat Hight'', ''N/A''), (''Appearence Rate'', ''N/A''),
             (''Battery Level'', ''N/A''), (''Left Brake Rate'', ''N/A''),
             (''Right Brake Rate'', ''N/A''), (''Pedaling Rate'', ''N/A''),
             (''Speed Rate'', ''N/A'')]\<rparr>,
         outbox := outbox w @ map step_prompt add_steps\<rparr>)"
  by (simp add: replicate_11 add_flow_def add_start_def add_serial_id_def
      add_inventory_tag_def add_location_def add_parking_angel_def add_tires_rate_def
      add_seat_height_def add_appearence_rate_def add_battery_level_def
      add_left_brake_rate_def add_right_brake_rate_def add_pedaling_rate_def
      add_speed_rate_def rate_step_def proceed_def skip_field_def
      store_field_def set_research_data_def reply_text_def dict_has_def add_steps_def)

lemma all_skipped_run:
  assumes "sid \<noteq> ''Cancel''"
  shows "add_flow now w (Text sid # replicate 12 (Text ''Skip'')) =
     add_conversation now NOTE
      (w\<lparr>user_data := (user_data w)\<lparr>ud_research_data := Some
            [(''Serial ID'', sid), (''Inventory Tag'', ''N/A''), (''Location'', ''N/A''),
             (''Is Straight Parking Angel'', ''N/A''), (''Tires Rate'', ''N/A''),
             (''Seat Hight'', ''N/A''), (''Appearence Rate'', ''N/A''),
             (''Battery Level'', ''N/A''), (''Left Brake Rate'', ''N/A''),
             (''Right Brake Rate'', ''N/A''), (''Pedaling Rate'', ''N/A''),
             (''Speed Rate'', ''N/A'')]\<rparr>,
         outbox := outbox w @ map step_prompt add_steps\<rparr>) [Text ''Skip'']"
proof -
  have "Text sid # replicate 12 (Text ''Skip'')
        = (Text sid # replicate 11 (Text ''Skip'')) @ [Text ''Skip'']"
    by (simp add: replicate_11 replicate_12)
  then have "add_flow now w (Text sid # replicate 12 (Text ''Skip''))
        = add_conversation now
            (fst (add_flow now w (Text sid # replicate 11 (Text ''Skip''))))
            (snd (add_flow now w (Text sid # replicate 11 (Text ''Skip'')))) [Text ''Skip'']"
    unfolding add_flow_def by (simp only: add_conversation_append)
  then show ?thesis by (simp only: skipped_to_note [OF assms] fst_conv snd_conv)
qed

lemma note_skip_saves:
  assumes "ud_research_data (user_data w) = Some rd" and "\<not> dict_has rd ''Note''"
    and "save_record now (set_research_data (dict_set rd ''Note'' ''N/A'') w)
         = (Inr ConversationHandler_END, w')"
  shows "add_conversation now NOTE w [Text ''Skip''] = (ConversationHandler_END, w')"
  using assms by (simp add: add_note_def skip_field_def)

lemma all_skipped_result:
  assumes "case csv_file w of None \<Rightarrow> True | Some t \<Rightarrow> store_format t"
  shows "add_flow now w (Text ''BK-001'' # replicate 12 (Text ''Skip'')) =
     (ConversationHandler_END,
      \<lparr>user_data = cleared,
       csv_file = Some (initialize_csv (csv_file w)
                        @ [''BK-001'' # replicate 12 ''N/A'' @ [strftime now]]),
       outbox = outbox w @ map step_prompt add_steps @
         [(format_summary
             [(''Serial ID'', ''BK-001''), (''Inventory Tag'', ''N/A''), (''Location'', ''N/A''),
              (''Is Straight Parking Angel'', ''N/A''), (''Tires Rate'', ''N/A''),
              (''Seat Hight'', ''N/A''), (''Appearence Rate'', ''N/A''),
              (''Battery Level'', ''N/A''), (''Left Brake Rate'', ''N/A''),
              (''Right Brake Rate'', ''N/A''), (''Pedaling Rate'', ''N/A''),
              (''Speed Rate'', ''N/A''), (''Note'', ''N/A''), (''Date'', strftime now)],
           ReplyKeyboardRemove),
          (''Saved'', NoMarkup)]\<rparr>)"
proof -
  let ?part = "[(''Serial ID'', ''BK-001''), (''Inventory Tag'', ''N/A''), (''Location'', ''N/A''),
             (''Is Straight Parking Angel'', ''N/A''), (''Tires Rate'', ''N/A''),
             (''Seat Hight'', ''N/A''), (''Appearence Rate'', ''N/A''),
             (''Battery Level'', ''N/A''), (''Left Brake Rate'', ''N/A''),
             (''Right Brake Rate'', ''N/A''), (''Pedaling Rate'', ''N/A''),
             (''Speed Rate'', ''N/A'')]"
  let ?full = "dict_set ?part ''Note'' ''N/A''"
  let ?atnote = "w\<lparr>user_data := (user_data w)\<lparr>ud_research_data := Some ?part\<rparr>,
                outbox := outbox w @ map step_prompt add_steps\<rparr>"
  let ?final = "set_research_data ?full ?atnote"
  let ?row = "''BK-001'' # replicate 12 ''N/A'' @ [strftime now]"
  from assms have "store_ok (\<lambda>F v. True) (csv_file w)"
    by (auto simp: store_ok_def store_format_def rows_ok_def list_all_iff
        split: option.splits list.splits)
  then obtain rows where
    rd: "read_csv (csv_file w) = (map (row_dict CSV_COLUMNS) rows, Some (CSV_COLUMNS # rows))"
    and "rows_ok (\<lambda>F v. True) rows"
    by (rule read_csv_ok)
  then have rows: "list_all (\<lambda>r. length r = length CSV_COLUMNS) rows"
    by (simp add: rows_ok_length)
  have init: "initialize_csv (csv_file w) = CSV_COLUMNS # rows"
    using rd by (simp add: read_csv_def Let_def)
  have ok: "record_ok_at (\<lambda>F v. True) 13 ?full"
    by (simp add: record_ok_at_def all_fields_eq)
  have cells: "map (\<lambda>c. case map_of (dict_set ?full ''Date'' (strftime now)) c of
                     Some v \<Rightarrow> v | None \<Rightarrow> []) CSV_COLUMNS = ?row"
    by (simp add: CSV_COLUMNS_def replicate_12)
  have "save_record now ?final =
     (Inr ConversationHandler_END,
      \<lparr>user_data = cleared,
       csv_file = Some (CSV_COLUMNS # rows @
         [map (\<lambda>c. case map_of (dict_set ?full ''Date'' (strftime now)) c of
                     Some v \<Rightarrow> v | None \<Rightarrow> []) CSV_COLUMNS]),
       outbox = outbox ?final @
         [(format_summary (dict_set ?full ''Date'' (strftime now)), ReplyKeyboardRemove),
          (''Saved'', NoMarkup)]\<rparr>)"
    by (rule save_record_store [where P = "\<lambda>F v. True", OF _ _ ok _ rows])
       (simp_all add: set_research_data_def rd)
  then have saved: "save_record now ?final =
     (Inr ConversationHandler_END,
      \<lparr>user_data = cleared, csv_file = Some (CSV_COLUMNS # rows @ [?row]),
       outbox = outbox ?final @
         [(format_summary (dict_set ?full ''Date'' (strftime now)), ReplyKeyboardRemove),
          (''Saved'', NoMarkup)]\<rparr>)"
    by (simp only: cells)
  have "add_conversation now NOTE ?atnote [Text ''Skip''] =
     (ConversationHandler_END,
      \<lparr>user_data = cleared, csv_file = Some (CSV_COLUMNS # rows @ [?row]),
       outbox = outbox ?final @
         [(format_summary (dict_set ?full ''Date'' (strftime now)), ReplyKeyboardRemove),
          (''Saved'', NoMarkup)]\<rparr>)"
  proof (rule note_skip_saves)
    show "save_record now (set_research_data (dict_set ?part ''Note'' ''N/A'') ?atnote) =
     (Inr ConversationHandler_END,
      \<lparr>user_data = cleared, csv_file = Some (CSV_COLUMNS # rows @ [?row]),
       outbox = outbox ?final @
         [(format_summary (dict_set ?full ''Date'' (strftime now)), ReplyKeyboardRemove),
          (''Saved'', NoMarkup)]\<rparr>)"
      by (rule saved)
    show "ud_research_data (user_data ?atnote) = Some ?part" by simp
    show "\<not> dict_has ?part ''Note''" by (simp add: dict_has_def)
  qed
  then have "add_flow now w (Text ''BK-001'' # replicate 12 (Text ''Skip'')) =
     (ConversationHandler_END,
      \<lparr>user_data = cleared, csv_file = Some (CSV_COLUMNS # rows @ [?row]),
       outbox = outbox ?final @
         [(format_summary (dict_set ?full ''Date'' (strftime now)), ReplyKeyboardRemove),
          (''Saved'', NoMarkup)]\<rparr>)"
    by (subst all_skipped_run) simp_all
  then show ?thesis
    by (simp add: init set_research_data_def)
qed

text \<open>
  C4. The add flow with the Serial ID \<open>BK-001\<close> and \<open>Skip\<close> at each of the twelve steps
  after it ends the conversation and appends one row to the store, after all the rows
  that were there (to the empty store when the file did not exist): the row with
  \<open>BK-001\<close> in the column Serial ID, the timestamp of the clock in the column Date and
  \<open>N/A\<close> in the twelve columns between them. Read back, the store holds the records it
  held and after them the one record with these values under the names of the columns.
\<close>

theorem add_all_skipped:
  assumes "case csv_file w of None \<Rightarrow> True | Some t \<Rightarrow> store_format t"
  shows "fst (add_flow now w (Text ''BK-001'' # replicate 12 (Text ''Skip'')))
          = ConversationHandler_END
    \<and> csv_file (snd (add_flow now w (Text ''BK-001'' # replicate 12 (Text ''Skip''))))
        = Some (initialize_csv (csv_file w)
                @ [''BK-001'' # replicate 12 ''N/A'' @ [strftime now]])
    \<and> fst (read_csv (csv_file (snd
          (add_flow now w (Text ''BK-001'' # replicate 12 (Text ''Skip''))))))
        = fst (read_csv (csv_file w))
          @ [\<lparr>items = zip CSV_COLUMNS
                 (map Some (''BK-001'' # replicate 12 ''N/A'' @ [strftime now])),
               rest = None\<rparr>]"
proof -
  let ?row = "''BK-001'' # replicate 12 ''N/A'' @ [strftime now]"
  from assms have "store_ok (\<lambda>F v. True) (csv_file w)"
    by (auto simp: store_ok_def store_format_def rows_ok_def list_all_iff
        split: option.splits list.splits)
  then obtain rows where
    rd: "read_csv (csv_file w) = (map (row_dict CSV_COLUMNS) rows, Some (CSV_COLUMNS # rows))"
    and "rows_ok (\<lambda>F v. True) rows"
    by (rule read_csv_ok)
  then have rows: "list_all (\<lambda>r. length r = length CSV_COLUMNS) rows"
    by (simp add: rows_ok_length)
  have init: "initialize_csv (csv_file w) = CSV_COLUMNS # rows"
    using rd by (simp add: read_csv_def Let_def)
  note run = all_skipped_result [OF assms, of now]
  have "length ?row = length CSV_COLUMNS" by (simp add: length_CSV_COLUMNS)
  with rows have sf: "store_format (CSV_COLUMNS # rows @ [?row])"
    by (simp add: store_format_def)
  have "fst (read_csv (Some (CSV_COLUMNS # rows @ [?row])))
        = map (row_dict CSV_COLUMNS) rows @ [row_dict CSV_COLUMNS ?row]"
    by (simp add: read_csv_store [OF sf])
  also have "row_dict CSV_COLUMNS ?row = \<lparr>items = zip CSV_COLUMNS (map Some ?row), rest = None\<rparr>"
    by (rule row_dict_store) (simp add: length_CSV_COLUMNS)
  finally show ?thesis
    by (simp add: run init rd)
qed

theorem add_all_skipped_witness:
  "(case csv_file (fresh\<lparr>csv_file := Some [CSV_COLUMNS, ''OLD'' # replicate 13 ''0'']\<rparr>) of
      None \<Rightarrow> True | Some t \<Rightarrow> store_format t)
   \<and> csv_file (snd (add_flow
        \<lparr>year = 2026, month = 11, day = 3, hour = 9, minute = 5, second = 0\<rparr>
        (fresh\<lparr>csv_file := Some [CSV_COLUMNS, ''OLD'' # replicate 13 ''0'']\<rparr>)
        (Text ''BK-001'' # replicate 12 (Text ''Skip''))))
     = Some [CSV_COLUMNS, ''OLD'' # replicate 13 ''0'',
             [''BK-001'', ''N/A'', ''N/A'', ''N/A'', ''N/A'', ''N/A'', ''N/A'', ''N/A'', ''N/A'',
              ''N/A'', ''N/A'', ''N/A'', ''N/A'', ''2026-11-03 09:05:00'']]"
  using add_all_skipped [of "fresh\<lparr>csv_file := Some [CSV_COLUMNS, ''OLD'' # replicate 13 ''0'']\<rparr>"
      "\<lparr>year = 2026, month = 11, day = 3, hour = 9, minute = 5, second = 0\<rparr>"]
  by (simp add: fresh_def store_format_def length_CSV_COLUMNS initialize_csv_def
      replicate_12 strftime_def two_digits_def dec.simps ascii_digits_def)

section \<open>The summary\<close>






section \<open>Deleting and updating keep the store in order\<close>

lemma rows_ok_filter: "rows_ok P rows \<Longrightarrow> rows_ok P (filter Q rows)"
  by (auto simp: rows_ok_def list_all_iff)

lemma store_ok_rows [simp]: "store_ok P (Some (CSV_COLUMNS # rows)) = rows_ok P rows"
  by (simp add: store_ok_def)

lemma delete_command_ok:
  assumes st: "store_ok P (csv_file w)"
  shows "store_ok P (csv_file (snd (delete_command args w)))"
proof (cases "args = []")
  case True
  with st show ?thesis by (simp add: delete_command_def)
next
  case False
  let ?id = "join '' '' args"
  from st obtain rows where
    rd: "read_csv (csv_file w) = (map (row_dict CSV_COLUMNS) rows, Some (CSV_COLUMNS # rows))"
    and ok: "rows_ok P rows"
    by (rule read_csv_ok)
  let ?kept = "filter (\<lambda>r. hd r \<noteq> ?id) rows"
  have rows: "list_all (\<lambda>r. length r = length CSV_COLUMNS) rows"
    using ok by (rule rows_ok_length)
  have wr: "write_csv (map (row_dict CSV_COLUMNS) ?kept) = (None, CSV_COLUMNS # ?kept)"
    by (rule write_csv_rows [OF rows_ok_length [OF rows_ok_filter [OF ok]]])
  have "delete_command args w =
     (None,
      if length ?kept < length rows then
        reply_text (''Deleted '' @ quoted ?id) NoMarkup (w\<lparr>csv_file := Some (CSV_COLUMNS # ?kept)\<rparr>)
      else reply_text (''Not found '' @ quoted ?id) NoMarkup
             (w\<lparr>csv_file := Some (CSV_COLUMNS # rows)\<rparr>))"
    unfolding delete_command_def Let_def rd fst_conv snd_conv
      rows_without_store [OF rows] sum.case length_map wr
    using False by simp
  with ok rows_ok_filter [OF ok, of "\<lambda>r. hd r \<noteq> ?id"] show ?thesis by simp
qed

lemma cells_ok_update:
  assumes len: "length r = length CSV_COLUMNS" and i: "i < length CSV_COLUMNS"
    and cells: "list_all (\<lambda>(c, v). P c v) (zip CSV_COLUMNS r)" and P: "P (CSV_COLUMNS ! i) x"
  shows "list_all (\<lambda>(c, v). P c v) (zip CSV_COLUMNS (r[i := x]))"
proof -
  have "zip CSV_COLUMNS (r[i := x]) = zip (CSV_COLUMNS[i := CSV_COLUMNS ! i]) (r[i := x])"
    by simp
  also have "\<dots> = (zip CSV_COLUMNS r)[i := (CSV_COLUMNS ! i, x)]"
    by (rule zip_update)
  finally have "set (zip CSV_COLUMNS (r[i := x]))
                \<subseteq> insert (CSV_COLUMNS ! i, x) (set (zip CSV_COLUMNS r))"
    by (simp add: set_update_subset_insert)
  with cells P show ?thesis by (auto simp: list_all_iff)
qed

lemma write_value_error_or_end:
  "fst (write_value v w) = Inr ConversationHandler_END \<or>
   (\<exists>e. fst (write_value v w) = Inl e) \<and> user_data (snd (write_value v w)) = user_data w"
  by (simp add: write_value_def Let_def split: option.split sum.split)

lemma write_value_ok:
  assumes st: "store_ok P (csv_file w)"
    and fld: "\<And>F. ud_update_field (user_data w) = Some F \<Longrightarrow>
               F \<in> set CSV_COLUMNS \<and> P F (case v of Some s \<Rightarrow> s | None \<Rightarrow> [])"
  shows "store_ok P (csv_file (snd (write_value v w)))"
proof (cases "ud_update_field (user_data w)")
  case None
  with st show ?thesis by (simp add: write_value_def)
next
  case (Some F)
  show ?thesis
  proof (cases "ud_update_serial_id (user_data w)")
    case None
    with st Some show ?thesis by (simp add: write_value_def)
  next
    case sid: (Some serial_id)
    from st obtain rows where
      rd: "read_csv (csv_file w) = (map (row_dict CSV_COLUMNS) rows, Some (CSV_COLUMNS # rows))"
      and ok: "rows_ok P rows"
      by (rule read_csv_ok)
    have rows: "list_all (\<lambda>r. length r = length CSV_COLUMNS) rows"
      using ok by (rule rows_ok_length)
    show ?thesis
    proof (cases "\<exists>r\<in>set rows. hd r = serial_id")
      case False
      then have none: "\<forall>r\<in>set rows. hd r \<noteq> serial_id" by simp
      have "write_value v w =
         (Inr ConversationHandler_END,
          (reply_text ''Updated'' ReplyKeyboardRemove
             (w\<lparr>csv_file := Some (CSV_COLUMNS # rows)\<rparr>))\<lparr>user_data := cleared\<rparr>)"
        unfolding write_value_def Some sid option.case Let_def rd fst_conv snd_conv
          set_first_no_match [OF rows none] sum.case write_csv_rows [OF rows]
        by simp
      with ok show ?thesis by simp
    next
      case True
      then obtain pre r post where split: "rows = pre @ r # post"
        and r: "hd r = serial_id" and pre: "\<forall>p\<in>set pre. hd p \<noteq> serial_id"
        by (auto dest!: split_list_first_prop)
      from fld [OF Some] have "F \<in> set CSV_COLUMNS"
        and PF: "P F (case v of Some s \<Rightarrow> s | None \<Rightarrow> [])" by simp_all
      then obtain i where i: "i < length CSV_COLUMNS" and F: "F = CSV_COLUMNS ! i"
        by (auto simp: in_set_conv_nth)
      from rows have rows': "list_all (\<lambda>r. length r = length CSV_COLUMNS) (pre @ r # post)"
        by (simp add: split)
      have "write_value v w =
         (Inr ConversationHandler_END,
          (reply_text ''Updated'' ReplyKeyboardRemove
             (w\<lparr>csv_file := Some (CSV_COLUMNS # pre
                   @ r[i := (case v of Some s \<Rightarrow> s | None \<Rightarrow> [])] # post)\<rparr>))
            \<lparr>user_data := cleared\<rparr>)"
        unfolding write_value_def Some sid option.case Let_def rd fst_conv snd_conv split F
          set_first_match [OF rows' pre r] sum.case write_csv_updated [OF rows' i]
        by simp
      moreover from ok have "rows_ok P pre" "rows_ok P post"
        and "length r = length CSV_COLUMNS"
        and "list_all (\<lambda>(c, v). P c v) (zip CSV_COLUMNS r)"
        by (simp_all add: split rows_ok_def)
      moreover from this(3,4) i PF
      have "list_all (\<lambda>(c, v). P c v)
              (zip CSV_COLUMNS (r[i := (case v of Some s \<Rightarrow> s | None \<Rightarrow> [])]))"
        unfolding F by (intro cells_ok_update)
      ultimately show ?thesis by (simp add: rows_ok_def)
    qed
  qed
qed

lemma upd_ok_reply [simp]: "upd_ok P S (reply_text t k w) = upd_ok P S w"
  by (simp add: upd_ok_def upd_inv_def)

lemma write_value_upd_ok:
  assumes inv: "upd_ok P UPDATE_VALUE w"
    and fld: "\<And>F. ud_update_field (user_data w) = Some F \<Longrightarrow>
               F \<in> set CSV_COLUMNS \<and> P F (case v of Some s \<Rightarrow> s | None \<Rightarrow> [])"
  shows "upd_ok P (after UPDATE_VALUE (write_value v w)) (snd (write_value v w))"
proof -
  from inv have st: "store_ok P (csv_file w)" and ui: "upd_inv UPDATE_VALUE w"
    by (simp_all add: upd_ok_def)
  from write_value_ok [OF st fld]
  have store: "store_ok P (csv_file (snd (write_value v w)))" by simp
  from write_value_error_or_end [of v w] show ?thesis
  proof
    assume "fst (write_value v w) = Inr ConversationHandler_END"
    with store show ?thesis by (simp add: upd_ok_def after_def upd_inv_def)
  next
    assume "(\<exists>e. fst (write_value v w) = Inl e) \<and>
            user_data (snd (write_value v w)) = user_data w"
    with store ui show ?thesis by (auto simp: upd_ok_def after_def upd_inv_def)
  qed
qed

lemma update_columns_eq:
  "update_columns =
     [''Inventory Tag'', ''Pedaling Rate'', ''Left Brake Rate'', ''Right Brake Rate'',
      ''Tires Rate'', ''Appearence Rate'', ''Battery Level'', ''Is Straight Parking Angel'',
      ''Seat Hight'', ''Location'', ''Speed Rate'', ''Note'']"
  by (simp add: update_columns_def CSV_COLUMNS_def)

lemma update_columns_kind:
  assumes "F \<in> set update_columns"
  shows "F = ''Location'' \<or> F = ''Note'' \<or> F = ''Inventory Tag'' \<or> F \<in> set rate_fields
         \<or> F = ''Battery Level'' \<or> F = ''Is Straight Parking Angel'' \<or> F = ''Seat Hight''"
proof (rule ccontr)
  assume "\<not> ?thesis"
  then have "F \<noteq> ''Location''" "F \<noteq> ''Note''" "F \<noteq> ''Inventory Tag''"
    "F \<notin> set rate_fields" "F \<noteq> ''Battery Level''" "F \<noteq> ''Is Straight Parking Angel''"
    "F \<noteq> ''Seat Hight''"
    by (simp_all del: set_simps)
  with assms show False
    by (simp add: update_columns_eq rate_fields_def)
qed

lemma update_columns_subset: "F \<in> set update_columns \<Longrightarrow> F \<in> set CSV_COLUMNS"
  by (simp add: update_columns_def)

section \<open>The invariant along the update flow\<close>

lemma update_value_upd_ok:
  assumes P: "\<And>F v. stored F v \<Longrightarrow> P F v" and inv: "upd_ok P UPDATE_VALUE w"
  shows "upd_ok P (after UPDATE_VALUE (update_value msg w)) (snd (update_value msg w))"
proof -
  have stay: "upd_ok P (after UPDATE_VALUE (Inr UPDATE_VALUE, reply_text t k w))
                (snd (Inr UPDATE_VALUE, reply_text t k w))" for t k
    using inv by (simp add: after_def)
  have raise: "upd_ok P (after UPDATE_VALUE (Inl e, w)) (snd (Inl e, w))" for e
    using inv by (simp add: after_def)
  have bk: "upd_ok P (after UPDATE_VALUE (Inr UPDATE_FIELD, reply_text t k w))
              (snd (Inr UPDATE_FIELD, reply_text t k w))" for t k
    using inv by (simp add: after_def upd_ok_def upd_inv_def)
  have wv: "upd_ok P (after UPDATE_VALUE (write_value v w)) (snd (write_value v w))"
    if "\<And>F. ud_update_field (user_data w) = Some F \<Longrightarrow>
              P F (case v of Some s \<Rightarrow> s | None \<Rightarrow> [])" for v
  proof (rule write_value_upd_ok [OF inv])
    fix F assume F: "ud_update_field (user_data w) = Some F"
    with inv have "F \<in> set update_columns" by (simp add: upd_ok_def upd_inv_def)
    then have "F \<in> set CSV_COLUMNS" by (rule update_columns_subset)
    with that [OF F] show "F \<in> set CSV_COLUMNS \<and> P F (case v of Some s \<Rightarrow> s | None \<Rightarrow> [])"
      by simp
  qed
  have rate: "upd_ok P (after UPDATE_VALUE (update_rate v lo hi c w))
                (snd (update_rate v lo hi c w))"
    if range: "\<And>F. ud_update_field (user_data w) = Some F \<Longrightarrow> IntRange F = Some (lo, hi)"
    for v lo hi c
  proof (cases v)
    case None
    with raise show ?thesis by (simp add: update_rate_def)
  next
    case (Some t)
    show ?thesis
    proof (cases "IntRange_accepts lo hi t")
      case True
      have "upd_ok P (after UPDATE_VALUE (write_value (Some t) w))
              (snd (write_value (Some t) w))"
      proof (rule wv)
        fix F assume "ud_update_field (user_data w) = Some F"
        from range [OF this] True have "stored F t" by (rule stored_rate)
        then show "P F (case Some t of Some s \<Rightarrow> s | None \<Rightarrow> [])" by (simp add: P)
      qed
      with True Some show ?thesis by (simp add: update_rate_text)
    next
      case False
      with Some stay raise show ?thesis by (simp add: update_rate_text)
    qed
  qed
  show ?thesis
  proof (cases "message_text msg = Some ''Skip''")
    case True
    have "upd_ok P (after UPDATE_VALUE (write_value (Some ''N/A'') w))
            (snd (write_value (Some ''N/A'') w))"
      by (rule wv) (simp add: P stored_skip)
    with True show ?thesis by (simp add: update_value_def)
  next
    case ns: False
    show ?thesis
    proof (cases "message_text msg = Some ''Back''")
      case True
      with ns raise bk show ?thesis
        by (simp add: update_value_def split: option.split)
    next
      case nb: False
      show ?thesis
      proof (cases "ud_update_field (user_data w)")
        case None
        with ns nb raise show ?thesis by (simp add: update_value_def)
      next
        case (Some F)
        with inv have "F \<in> set update_columns" by (simp add: upd_ok_def upd_inv_def)
        from update_columns_kind [OF this] show ?thesis
        proof (elim disjE)
          assume F: "F = ''Location''"
          have "upd_ok P (after UPDATE_VALUE (write_value (Some (la @ '', '' @ lo)) w))
                  (snd (write_value (Some (la @ '', '' @ lo)) w))" for la lo
          proof (rule wv)
            fix G assume "ud_update_field (user_data w) = Some G"
            with Some F have "G = ''Location''" by simp
            then show "P G (case Some (la @ '', '' @ lo) of Some s \<Rightarrow> s | None \<Rightarrow> [])"
              using P [OF stored_location, of la lo] by simp
          qed
          with ns nb Some F stay show ?thesis
            by (simp add: update_value_def split: option.split)
        next
          assume F: "F = ''Note''"
          have "upd_ok P (after UPDATE_VALUE (write_value (message_text msg) w))
                  (snd (write_value (message_text msg) w))"
          proof (rule wv)
            fix G assume "ud_update_field (user_data w) = Some G"
            with Some F have G: "G = ''Note''" by simp
            from ns nb have "stored ''Note''
                (case message_text msg of Some s \<Rightarrow> s | None \<Rightarrow> [])"
              by (intro stored_text) (auto split: option.split)
            with G show "P G (case message_text msg of Some s \<Rightarrow> s | None \<Rightarrow> [])"
              by (simp add: P)
          qed
          with ns nb Some F show ?thesis by (simp add: update_value_def)
        next
          assume F: "F = ''Inventory Tag''"
          have "upd_ok P (after UPDATE_VALUE (write_value (message_text msg) w))
                  (snd (write_value (message_text msg) w))"
          proof (rule wv)
            fix G assume "ud_update_field (user_data w) = Some G"
            with Some F have G: "G = ''Inventory Tag''" by simp
            from ns nb have "stored ''Inventory Tag''
                (case message_text msg of Some s \<Rightarrow> s | None \<Rightarrow> [])"
              by (intro stored_text) (auto split: option.split)
            with G show "P G (case message_text msg of Some s \<Rightarrow> s | None \<Rightarrow> [])"
              by (simp add: P)
          qed
          with ns nb Some F show ?thesis by (simp add: update_value_def)
        next
          assume F: "F \<in> set rate_fields"
          have "upd_ok P (after UPDATE_VALUE
                    (update_rate (message_text msg) 0 10 ''Select a valid rate (0-10):'' w))
                  (snd (update_rate (message_text msg) 0 10 ''Select a valid rate (0-10):'' w))"
          proof (rule rate)
            fix G assume "ud_update_field (user_data w) = Some G"
            with Some F show "IntRange G = Some (0, 10)"
              by (simp add: IntRange_eq del: set_simps)
          qed
          moreover have "F \<notin> set [''Note'', ''Inventory Tag'']"
            using rate_fields_others [OF F] by simp
          ultimately show ?thesis
            using ns nb Some F rate_fields_others [OF F]
            by (simp add: update_value_def del: set_simps)
        next
          assume F: "F = ''Battery Level''"
          have "upd_ok P (after UPDATE_VALUE
                    (update_rate (message_text msg) 0 4
                       ''Select a valid battery level (0-4):'' w))
                  (snd (update_rate (message_text msg) 0 4
                       ''Select a valid battery level (0-4):'' w))"
          proof (rule rate)
            fix G assume "ud_update_field (user_data w) = Some G"
            with Some F show "IntRange G = Some (0, 4)" by (simp add: IntRange_def)
          qed
          with ns nb Some F show ?thesis
            by (simp add: update_value_def rate_fields_def)
        next
          assume F: "F = ''Is Straight Parking Angel''"
          have "upd_ok P (after UPDATE_VALUE (write_value (Some (lower t)) w))
                  (snd (write_value (Some (lower t)) w))"
            if "lower t = ''true'' \<or> lower t = ''false''" for t
          proof (rule wv)
            fix G assume "ud_update_field (user_data w) = Some G"
            with Some F have G: "G = ''Is Straight Parking Angel''" by simp
            from that have "stored ''Is Straight Parking Angel'' (lower t)"
              by (rule stored_parking)
            with G show "P G (case Some (lower t) of Some s \<Rightarrow> s | None \<Rightarrow> [])"
              by (simp add: P)
          qed
          with ns nb Some F stay raise show ?thesis
            by (simp add: update_value_def rate_fields_def split: option.split)
        next
          assume F: "F = ''Seat Hight''"
          have "upd_ok P (after UPDATE_VALUE
                    (update_rate (message_text msg) 1 10 ''Select a valid height (1-10):'' w))
                  (snd (update_rate (message_text msg) 1 10
                       ''Select a valid height (1-10):'' w))"
          proof (rule rate)
            fix G assume "ud_update_field (user_data w) = Some G"
            with Some F show "IntRange G = Some (1, 10)" by (simp add: IntRange_def)
          qed
          with ns nb Some F show ?thesis
            by (simp add: update_value_def rate_fields_def)
        qed
      qed
    qed
  qed
qed

lemma update_field_upd_ok:
  assumes inv: "upd_ok P UPDATE_FIELD w"
  shows "upd_ok P (after UPDATE_FIELD (update_field t w)) (snd (update_field t w))"
proof (cases "t = ''Cancel''")
  case True
  with inv show ?thesis
    by (simp add: update_field_def after_def upd_ok_def upd_inv_def)
next
  case nc: False
  show ?thesis
  proof (cases "t \<notin> set CSV_COLUMNS \<or> t \<in> set [''Serial ID'', ''Date'']")
    case True
    with nc inv show ?thesis
      by (simp add: update_field_def after_def del: set_simps)
  next
    case False
    then have "t \<in> set update_columns" by (simp add: update_columns_def del: set_simps)
    with nc False inv show ?thesis
      by (simp add: update_field_def after_def Let_def upd_ok_def upd_inv_def del: set_simps)
  qed
qed

lemma update_handler_upd_ok:
  assumes P: "\<And>F v. stored F v \<Longrightarrow> P F v" and inv: "upd_ok P S w"
  shows "upd_ok P (after S (update_handler S msg w)) (snd (update_handler S msg w))"
proof -
  have stay: "upd_ok P (after S (Inr S, w)) (snd (Inr S, w))"
    using inv by (simp add: after_def)
  show ?thesis
  proof (cases "S = UPDATE_VALUE")
    case True
    with update_value_upd_ok [of P w msg] P inv show ?thesis by simp
  next
    case nv: False
    show ?thesis
    proof (cases "S = UPDATE_FIELD")
      case True
      with update_field_upd_ok [of P w] inv stay show ?thesis by (cases msg) simp_all
    next
      case False
      with nv stay show ?thesis by (cases S) simp_all
    qed
  qed
qed

lemma update_conversation_upd_ok:
  assumes P: "\<And>F v. stored F v \<Longrightarrow> P F v"
  shows "upd_ok P S w \<Longrightarrow>
         upd_ok P (fst (update_conversation S w msgs)) (snd (update_conversation S w msgs))"
proof (induction msgs arbitrary: S w)
  case Nil
  then show ?case by simp
next
  case (Cons msg msgs)
  show ?case
  proof (cases "S = ConversationHandler_END")
    case True
    with Cons.prems show ?thesis by simp
  next
    case False
    obtain res w' where r: "update_handler S msg w = (res, w')"
      by (cases "update_handler S msg w")
    from update_handler_upd_ok [of P S w msg] P Cons.prems r
    have inv': "upd_ok P (after S (res, w')) w'" by simp
    show ?thesis
    proof (cases res)
      case (Inl e)
      with inv' have "upd_ok P S (reply_text ''An error occurred. Please try again.'' NoMarkup w')"
        by (simp add: after_def)
      from Cons.IH [OF this] False r Inl show ?thesis by simp
    next
      case (Inr S')
      with inv' have "upd_ok P S' w'" by (simp add: after_def)
      from Cons.IH [OF this] False r Inr show ?thesis by simp
    qed
  qed
qed

lemma update_start_ok:
  assumes st: "store_ok P (csv_file w)"
  shows "store_ok P (csv_file (snd (update_start args w))) \<and>
         (\<forall>S. fst (update_start args w) = Inr S \<longrightarrow> S \<noteq> UPDATE_VALUE)"
proof (cases "args = []")
  case True
  with st show ?thesis by (simp add: update_start_def)
next
  case False
  from st obtain rows where
    rd: "read_csv (csv_file w) = (map (row_dict CSV_COLUMNS) rows, Some (CSV_COLUMNS # rows))"
    and ok: "rows_ok P rows"
    by (rule read_csv_ok)
  have rows: "list_all (\<lambda>r. length r = length CSV_COLUMNS) rows"
    using ok by (rule rows_ok_length)
  show ?thesis
    unfolding update_start_def Let_def rd fst_conv snd_conv find_record_store [OF rows]
    using False ok by (simp split: option.split)
qed

lemma update_flow_ok:
  assumes P: "\<And>F v. stored F v \<Longrightarrow> P F v" and st: "store_ok P (csv_file w)"
  shows "store_ok P (csv_file (snd (update_flow args w msgs)))"
proof -
  obtain res w' where r: "update_start args w = (res, w')"
    by (cases "update_start args w")
  with update_start_ok [OF st, of args]
  have st': "store_ok P (csv_file w')" and nv: "\<forall>S. res = Inr S \<longrightarrow> S \<noteq> UPDATE_VALUE"
    by simp_all
  show ?thesis
  proof (cases res)
    case (Inl e)
    with r st' show ?thesis by (simp add: update_flow_def)
  next
    case (Inr S)
    with nv st' have "upd_ok P S w'" by (simp add: upd_ok_def upd_inv_def)
    from update_conversation_upd_ok [of P S w' msgs] P this r Inr show ?thesis
      by (simp add: update_flow_def upd_ok_def)
  qed
qed

end
